theory Spec2Isabelle
  imports Main "HOL-Library.Word"
begin

unbundle bit_operations_syntax

section \<open>Data model (options.go)\<close>

text \<open>
  The constants of \<^verbatim>\<open>options.go\<close>. The SQL texts are Go raw string literals that span
  several lines; their runs of white space are written as single blanks here. Only their
  identity matters: the database model below recognises them by equality.
\<close>

definition SchemaVersionStatusSuccess :: string where
  "SchemaVersionStatusSuccess = ''SUCCESS''"

definition SchemaVersionStatusError :: string where
  "SchemaVersionStatusError = ''ERROR''"

definition SqliteMasterSQL :: string where
  "SqliteMasterSQL = ''SELECT count(1) FROM sqlite_master WHERE type='table' AND name = ?''"

definition InsertSchemaVersionSQL :: string where
  "InsertSchemaVersionSQL =
     ''INSERT INTO schema_version (script, checksum, execution_time, status) values (?, ?, ?, ?)''"

definition DDLSchemaVersion :: string where
  "DDLSchemaVersion =
     ''CREATE TABLE IF NOT EXISTS schema_version ( id INTEGER PRIMARY KEY AUTOINCREMENT, script TEXT NOT NULL, checksum TEXT NOT NULL, execution_time TEXT NOT NULL, status TEXT NOT NULL, created_time datetime default current_timestamp );''"

text \<open>The query text that \<^verbatim>\<open>SchemaVersionArray\<close> passes to \<^verbatim>\<open>Query\<close>.\<close>

definition SelectSchemaVersionSQL :: string where
  "SelectSchemaVersionSQL = ''select * from schema_version''"

text \<open>
  \<^verbatim>\<open>type SchemaVersion struct\<close>. \<^verbatim>\<open>Id\<close> is renamed (HOL has a constant of that name);
  \<^verbatim>\<open>CreatedTime\<close> (a \<^verbatim>\<open>time.Time\<close>) is kept as the text of the timestamp.
\<close>

record SchemaVersion =
  Id_sv :: int
  Script :: string
  Checksum :: string
  ExecutionTime :: string
  Status :: string
  CreatedTime :: string

text \<open>The zero value of the struct (\<^verbatim>\<open>var sv SchemaVersion\<close>).\<close>

definition zeroSchemaVersion :: SchemaVersion where
  "zeroSchemaVersion =
     \<lparr>Id_sv = 0, Script = [], Checksum = [], ExecutionTime = [], Status = [], CreatedTime = []\<rparr>"

text \<open>
  Errors as values. \<open>AbnormalState\<close> is the \<^verbatim>\<open>fmt.Errorf\<close> of \<^verbatim>\<open>hasError\<close>
  ("schema version has abnormal state ..."), \<open>FileChanged\<close> the one of \<^verbatim>\<open>readFile\<close>
  ("sql file has been changed.");
  \<open>External\<close> carries the message of an error returned by a library call
  (\<^verbatim>\<open>database/sql\<close>, \<^verbatim>\<open>io/ioutil\<close>, \<^verbatim>\<open>hash\<close>); \<open>Panic\<close> is a run-time panic.
\<close>

datatype error =
    AbnormalState SchemaVersion
  | FileChanged SchemaVersion
  | External string
  | Panic

text \<open>
  A Go slice is either \<^verbatim>\<open>nil\<close> or a (possibly empty) sequence; \<^verbatim>\<open>append\<close> to a
  \<^verbatim>\<open>nil\<close> slice allocates, \<^verbatim>\<open>range\<close> over a \<^verbatim>\<open>nil\<close> slice runs no iteration.
\<close>

datatype 'a slice = NilSlice | Slice "'a list"

fun elems :: "'a slice \<Rightarrow> 'a list" where
  "elems NilSlice = []"
| "elems (Slice xs) = xs"

fun append_slice :: "'a slice \<Rightarrow> 'a \<Rightarrow> 'a slice" where
  "append_slice NilSlice x = Slice [x]"
| "append_slice (Slice xs) x = Slice (xs @ [x])"

text \<open>\<^verbatim>\<open>type Config struct\<close> and the option \<^verbatim>\<open>DDLPath\<close>; durations are nanoseconds.\<close>

record Config =
  maxIdleConns :: int
  maxOpenConns :: int
  connMaxLifetime :: int
  attempts :: nat
  delay :: int
  ddlPath :: string
  flyway :: bool

definition DDLPath :: "string \<Rightarrow> Config \<Rightarrow> Config" where
  "DDLPath p c = (let c = c\<lparr>ddlPath := p\<rparr> in if p \<noteq> [] then c\<lparr>flyway := True\<rparr> else c)"

text \<open>
  \<^verbatim>\<open>type SqliteClient struct\<close>: the data source name and the configuration. The handle
  \<^verbatim>\<open>db\<close> is represented by the database state of the world below (the operations are
  modelled for a client whose handle has been set), the mutex is not modelled (the calls
  modelled here run one at a time), and neither is logging.
\<close>

record SqliteClient =
  dataSourceName :: string
  config :: Config

definition NewSqliteClient :: "string \<Rightarrow> (Config \<Rightarrow> Config) list \<Rightarrow> SqliteClient" where
  "NewSqliteClient dsn opts =
     \<lparr>dataSourceName = dsn,
      config = fold (\<lambda>opt c. opt c) opts
        \<lparr>maxIdleConns = 50, maxOpenConns = 100, connMaxLifetime = 24 * 3600 * 1000000000,
         attempts = 3, delay = 200 * 1000000, ddlPath = [], flyway = False\<rparr>\<rparr>"

section \<open>Pure helpers (options.go)\<close>

text \<open>\<^verbatim>\<open>findByScript\<close>: the first record whose script name is the one asked for.\<close>

fun findByScript :: "string \<Rightarrow> SchemaVersion list \<Rightarrow> bool \<times> SchemaVersion option" where
  "findByScript script [] = (False, None)"
| "findByScript script (sv # svArray) =
     (if Script sv = script then (True, Some sv) else findByScript script svArray)"

text \<open>\<^verbatim>\<open>hasError\<close>: the error names the first record whose status is ERROR.\<close>

fun hasError :: "SchemaVersion list \<Rightarrow> error option" where
  "hasError [] = None"
| "hasError (sv # svArray) =
     (if Status sv = SchemaVersionStatusError then Some (AbnormalState sv)
      else hasError svArray)"

text \<open>
  \<^verbatim>\<open>hash64\<close>: \<^verbatim>\<open>fnv.New64()\<close> is the 64-bit FNV-1 hash of \<^verbatim>\<open>hash/fnv\<close>: the state
  starts at the offset basis; \<^verbatim>\<open>Write\<close> multiplies by the prime and then xors the
  byte in, for each byte in turn, and returns no error; \<^verbatim>\<open>Sum64\<close> is the state.
\<close>

definition offset64 :: "64 word" where
  "offset64 = 14695981039346656037"

definition prime64 :: "64 word" where
  "prime64 = 1099511628211"

fun fnv_Write :: "64 word \<Rightarrow> string \<Rightarrow> 64 word \<times> error option" where
  "fnv_Write h [] = (h, None)"
| "fnv_Write h (c # cs) = fnv_Write ((h * prime64) XOR of_char c) cs"

definition hash64 :: "string \<Rightarrow> error + 64 word" where
  "hash64 s =
     (case fnv_Write offset64 s of
        (h, Some err) \<Rightarrow> Inl err
      | (h, None) \<Rightarrow> Inr h)"

text \<open>\<^verbatim>\<open>strconv.FormatUint(checksum, 10)\<close>: the decimal digits, most significant first.\<close>

function FormatUint :: "64 word \<Rightarrow> string" where
  "FormatUint w =
     (if w < 10 then [char_of (48 + unat w)]
      else FormatUint (w div 10) @ [char_of (48 + unat (w mod 10))])"
  by pat_completeness auto
termination
proof (relation "measure unat")
  show "wf (measure unat)" by simp
next
  fix w :: "64 word"
  assume "\<not> w < 10"
  then have "10 \<le> unat w"
    by (simp add: word_less_nat_alt not_less)
  then have "unat w div 10 < unat w"
    by simp
  then show "(w div 10, w) \<in> measure unat"
    by (simp add: unat_div)
qed

declare FormatUint.simps [simp del]

text \<open>
  \<^verbatim>\<open>shortDur\<close>, on the text \<^verbatim>\<open>d.String()\<close> of the duration; \<^verbatim>\<open>strings.HasSuffix\<close> is
  \<^verbatim>\<open>len(s) >= len(suffix) && s[len(s)-len(suffix):] == suffix\<close>.
\<close>

definition HasSuffix :: "string \<Rightarrow> string \<Rightarrow> bool" where
  "HasSuffix s suffix =
     (length suffix \<le> length s \<and> drop (length s - length suffix) s = suffix)"

definition shortDur :: "string \<Rightarrow> string" where
  "shortDur d_String =
     (let s = d_String;
          s = (if HasSuffix s ''m0s'' then take (length s - 2) s else s);
          s = (if HasSuffix s ''h0m'' then take (length s - 2) s else s)
      in s)"

section \<open>The world outside the program\<close>

text \<open>
  Every call into a library that can fail or that touches the database or the file system
  is an entry of the trace, with its outcome (\<open>None\<close>: it succeeded, \<open>Some m\<close>: it
  failed with message \<open>m\<close>). Arguments of SQL statements (\<^verbatim>\<open>...interface{}\<close>) are
  strings, which is what the migration code passes.
\<close>

datatype call =
    DbPing
  | SqlOpen
  | DbExec string
  | DbQuery string "string list"
  | RowsScan
  | RowsErr
  | DbPrepare string
  | StmtExec string "string list"
  | DbBegin
  | TxCommit
  | TxRollback
  | TxQueryRowScan string "string list"
  | ReadDir string
  | ReadFile string

text \<open>
  The state: the table \<^verbatim>\<open>schema_version\<close> (\<open>None\<close> while it does not exist, else its rows
  in rowid order, oldest first), the AUTOINCREMENT counter of that table, and the trace. The
  rest of the database is opaque: it is represented by the statements of the trace. A handle
  reopened by \<^verbatim>\<open>OpenDataSource\<close> is a handle on the same database file.
\<close>

record world =
  schema_version :: "SchemaVersion list option"
  seq :: int
  trace :: "(call \<times> string option) list"

text \<open>A row handed to \<^verbatim>\<open>rows.Scan\<close>.\<close>

datatype row = VersionRow SchemaVersion | IntRow int | OpaqueRow

text \<open>
  The environment of a run, fixed in advance: \<open>fault t\<close> is the failure injected into the
  call that is number \<open>t\<close> of the trace (connection loss, I/O error, SQL error of a
  script, ...); \<open>fs_dir\<close> and \<open>fs_file\<close> are the file system (\<open>None\<close>: no such directory,
  no such readable file); \<open>elapsed t\<close> is the text \<^verbatim>\<open>d.String()\<close> of the duration measured
  at that point of the trace and \<open>timestamp t\<close> the database's \<^verbatim>\<open>current_timestamp\<close>;
  \<open>opaque_int\<close> and \<open>opaque_rows\<close> are the results of statements on the opaque rest of
  the database. \<open>exec_effect t text ok\<close> is what the SQL text \<open>text\<close>, executed at point
  \<open>t\<close> of the trace, does to the table \<^verbatim>\<open>schema_version\<close> and to its counter: a text
  may insert into that table, delete from it, update it or drop it. \<open>ok\<close> tells whether
  the execution succeeded; a text of several statements that fails has applied the
  statements before the failing one.
\<close>

record env =
  fault :: "nat \<Rightarrow> string option"
  fs_dir :: "string \<Rightarrow> string list option"
  fs_file :: "string \<Rightarrow> string option"
  elapsed :: "nat \<Rightarrow> string"
  timestamp :: "nat \<Rightarrow> string"
  opaque_int :: "nat \<Rightarrow> int"
  opaque_rows :: "nat \<Rightarrow> row list"
  exec_effect :: "nat \<Rightarrow> string \<Rightarrow> bool \<Rightarrow> SchemaVersion list option \<times> int
    \<Rightarrow> SchemaVersion list option \<times> int"

text \<open>
  One library call \<open>c\<close>: an injected fault makes it fail; otherwise it fails exactly when
  the state makes it fail (\<open>own\<close>, for instance a missing table). The outcome is appended
  to the trace. Where a call is made with a failure of its own, it cannot succeed; the
  branch for its success is never taken and yields \<open>Panic\<close>.
\<close>

definition lib_call :: "env \<Rightarrow> call \<Rightarrow> string option \<Rightarrow> world \<Rightarrow> error option \<times> world" where
  "lib_call env c own s =
     (let out = (case fault env (length (trace s)) of Some m \<Rightarrow> Some m | None \<Rightarrow> own)
      in (map_option External out, s\<lparr>trace := trace s @ [(c, out)]\<rparr>))"

subsection \<open>database/sql, as far as the client uses it\<close>

definition db_Ping :: "env \<Rightarrow> world \<Rightarrow> error option \<times> world" where
  "db_Ping env s = lib_call env DbPing None s"

text \<open>\<^verbatim>\<open>retry.Do\<close> around \<^verbatim>\<open>sql.Open\<close>, as one call: the outcome of the last attempt.\<close>

definition retry_Do_sql_Open :: "env \<Rightarrow> world \<Rightarrow> error option \<times> world" where
  "retry_Do_sql_Open env s = lib_call env SqlOpen None s"

text \<open>
  \<^verbatim>\<open>db.Exec(ddl)\<close> runs the text as it is, outside any transaction.
  \<^verbatim>\<open>DDLSchemaVersion\<close> is one statement, which creates the table unless it exists. What
  any other text does to \<^verbatim>\<open>schema_version\<close> and its counter is the environment's
  \<open>exec_effect\<close>, whether the execution succeeds or fails.
\<close>

definition db_Exec :: "env \<Rightarrow> string \<Rightarrow> world \<Rightarrow> error option \<times> world" where
  "db_Exec env ddl s =
     (case lib_call env (DbExec ddl) None s of
        (err, s1) \<Rightarrow>
          (err,
           if ddl = DDLSchemaVersion then
             (if err = None \<and> schema_version s1 = None
              then s1\<lparr>schema_version := Some []\<rparr> else s1)
           else
             (case exec_effect env (length (trace s)) ddl (err = None)
                     (schema_version s1, seq s1) of
                (tbl, n) \<Rightarrow> s1\<lparr>schema_version := tbl, seq := n\<rparr>)))"

text \<open>
  \<^verbatim>\<open>db.Query\<close>: the rows of \<^verbatim>\<open>schema_version\<close> in rowid order for the select of
  \<^verbatim>\<open>SchemaVersionArray\<close> (an error when the table is missing), the count of
  \<^verbatim>\<open>sqlite_master\<close> for the table \<^verbatim>\<open>schema_version\<close>, opaque rows otherwise.
\<close>

definition db_Query :: "env \<Rightarrow> string \<Rightarrow> string list \<Rightarrow> world \<Rightarrow> (error + row list) \<times> world" where
  "db_Query env query args s =
     (case lib_call env (DbQuery query args)
             (if query = SelectSchemaVersionSQL \<and> schema_version s = None
              then Some ''no such table: schema_version'' else None) s of
        (Some err, s1) \<Rightarrow> (Inl err, s1)
      | (None, s1) \<Rightarrow>
          (Inr (if query = SelectSchemaVersionSQL
                then (case schema_version s of None \<Rightarrow> [] | Some rs \<Rightarrow> map VersionRow rs)
                else if query = SqliteMasterSQL \<and> args = [''schema_version'']
                then [IntRow (if schema_version s = None then 0 else 1)]
                else opaque_rows env (length (trace s))), s1))"

text \<open>\<^verbatim>\<open>rows.Scan\<close> into the fields of a \<^verbatim>\<open>SchemaVersion\<close>, and into an \<^verbatim>\<open>int\<close>.\<close>

definition scan_version :: "env \<Rightarrow> row \<Rightarrow> world \<Rightarrow> (error + SchemaVersion) \<times> world" where
  "scan_version env r s =
     (case r of
        VersionRow sv \<Rightarrow>
          (case lib_call env RowsScan None s of
             (Some err, s1) \<Rightarrow> (Inl err, s1)
           | (None, s1) \<Rightarrow> (Inr sv, s1))
      | _ \<Rightarrow>
          (case lib_call env RowsScan (Some ''sql: Scan error'') s of
             (Some err, s1) \<Rightarrow> (Inl err, s1)
           | (None, s1) \<Rightarrow> (Inl Panic, s1)))"

definition scan_int :: "env \<Rightarrow> row \<Rightarrow> world \<Rightarrow> (error + int) \<times> world" where
  "scan_int env r s =
     (case r of
        IntRow n \<Rightarrow>
          (case lib_call env RowsScan None s of
             (Some err, s1) \<Rightarrow> (Inl err, s1)
           | (None, s1) \<Rightarrow> (Inr n, s1))
      | _ \<Rightarrow>
          (case lib_call env RowsScan (Some ''sql: Scan error'') s of
             (Some err, s1) \<Rightarrow> (Inl err, s1)
           | (None, s1) \<Rightarrow> (Inl Panic, s1)))"

definition rows_Err :: "env \<Rightarrow> world \<Rightarrow> error option \<times> world" where
  "rows_Err env s = lib_call env RowsErr None s"

text \<open>\<^verbatim>\<open>db.Prepare\<close>: the insert into \<^verbatim>\<open>schema_version\<close> needs the table.\<close>

definition db_Prepare :: "env \<Rightarrow> string \<Rightarrow> world \<Rightarrow> error option \<times> world" where
  "db_Prepare env query s =
     lib_call env (DbPrepare query)
       (if query = InsertSchemaVersionSQL \<and> schema_version s = None
        then Some ''no such table: schema_version'' else None) s"

text \<open>
  \<^verbatim>\<open>stm.Exec\<close> and the \<^verbatim>\<open>sql.Result\<close> it returns. The insert of
  \<^verbatim>\<open>InsertSchemaVersionSQL\<close> appends one row, with the next id and the current timestamp;
  what any other statement does to the table, when it succeeds, is the environment's
  \<open>exec_effect\<close>, and its result is a value of the opaque rest of the database.
\<close>

record sql_Result =
  LastInsertId :: int
  RowsAffected :: int

definition stmt_Exec :: "env \<Rightarrow> string \<Rightarrow> string list \<Rightarrow> world \<Rightarrow> (error + sql_Result) \<times> world" where
  "stmt_Exec env query args s =
     (if query = InsertSchemaVersionSQL then
        (case (schema_version s, args) of
           (Some rs, [script, checksum, execution_time, status]) \<Rightarrow>
             (case lib_call env (StmtExec query args) None s of
                (Some err, s1) \<Rightarrow> (Inl err, s1)
              | (None, s1) \<Rightarrow>
                  (Inr \<lparr>LastInsertId = seq s + 1, RowsAffected = 1\<rparr>,
                   s1\<lparr>schema_version := Some (rs @
                         [\<lparr>Id_sv = seq s + 1, Script = script, Checksum = checksum,
                           ExecutionTime = execution_time, Status = status,
                           CreatedTime = timestamp env (length (trace s))\<rparr>]),
                      seq := seq s + 1\<rparr>))
         | _ \<Rightarrow>
             (case lib_call env (StmtExec query args) (Some ''sql: statement failed'') s of
                (Some err, s1) \<Rightarrow> (Inl err, s1)
              | (None, s1) \<Rightarrow> (Inl Panic, s1)))
      else
        (case lib_call env (StmtExec query args) None s of
           (Some err, s1) \<Rightarrow> (Inl err, s1)
         | (None, s1) \<Rightarrow>
             (case exec_effect env (length (trace s)) query True (schema_version s1, seq s1) of
                (tbl, n) \<Rightarrow>
                  (Inr \<lparr>LastInsertId = opaque_int env (length (trace s)),
                        RowsAffected = opaque_int env (length (trace s))\<rparr>,
                   s1\<lparr>schema_version := tbl, seq := n\<rparr>))))"

definition db_Begin :: "env \<Rightarrow> world \<Rightarrow> error option \<times> world" where
  "db_Begin env s = lib_call env DbBegin None s"

text \<open>
  \<^verbatim>\<open>tx.Commit\<close> and \<^verbatim>\<open>tx.Rollback\<close>, given the state \<open>s0\<close> in which the transaction
  began: a rollback, and a commit that fails, restore the table as it was.
\<close>

definition tx_Commit :: "env \<Rightarrow> world \<Rightarrow> world \<Rightarrow> error option \<times> world" where
  "tx_Commit env s0 s =
     (case lib_call env TxCommit None s of
        (Some err, s1) \<Rightarrow> (Some err, s1\<lparr>schema_version := schema_version s0, seq := seq s0\<rparr>)
      | (None, s1) \<Rightarrow> (None, s1))"

definition tx_Rollback :: "env \<Rightarrow> world \<Rightarrow> world \<Rightarrow> error option \<times> world" where
  "tx_Rollback env s0 s =
     (case lib_call env TxRollback None s of
        (err, s1) \<Rightarrow> (err, s1\<lparr>schema_version := schema_version s0, seq := seq s0\<rparr>))"

text \<open>\<^verbatim>\<open>tx.QueryRow(sql, args...).Scan(&count)\<close>: the count is a value of the opaque rest.\<close>

definition tx_QueryRow_Scan :: "env \<Rightarrow> string \<Rightarrow> string list \<Rightarrow> world \<Rightarrow> (error + int) \<times> world" where
  "tx_QueryRow_Scan env query args s =
     (case lib_call env (TxQueryRowScan query args) None s of
        (Some err, s1) \<Rightarrow> (Inl err, s1)
      | (None, s1) \<Rightarrow> (Inr (opaque_int env (length (trace s))), s1))"

subsection \<open>io/ioutil\<close>

definition ioutil_ReadDir :: "env \<Rightarrow> string \<Rightarrow> world \<Rightarrow> (error + string list) \<times> world" where
  "ioutil_ReadDir env path s =
     (case fs_dir env path of
        None \<Rightarrow>
          (case lib_call env (ReadDir path) (Some ''no such file or directory'') s of
             (Some err, s1) \<Rightarrow> (Inl err, s1)
           | (None, s1) \<Rightarrow> (Inl Panic, s1))
      | Some files \<Rightarrow>
          (case lib_call env (ReadDir path) None s of
             (Some err, s1) \<Rightarrow> (Inl err, s1)
           | (None, s1) \<Rightarrow> (Inr files, s1)))"

definition ioutil_ReadFile :: "env \<Rightarrow> string \<Rightarrow> world \<Rightarrow> (error + string) \<times> world" where
  "ioutil_ReadFile env path s =
     (case fs_file env path of
        None \<Rightarrow>
          (case lib_call env (ReadFile path) (Some ''no such file or directory'') s of
             (Some err, s1) \<Rightarrow> (Inl err, s1)
           | (None, s1) \<Rightarrow> (Inl Panic, s1))
      | Some b \<Rightarrow>
          (case lib_call env (ReadFile path) None s of
             (Some err, s1) \<Rightarrow> (Inl err, s1)
           | (None, s1) \<Rightarrow> (Inr b, s1)))"

section \<open>The client (client.go)\<close>

definition Ping :: "SqliteClient \<Rightarrow> env \<Rightarrow> world \<Rightarrow> error option \<times> world" where
  "Ping sc env s = db_Ping env s"

text \<open>
  \<^verbatim>\<open>OpenDataSource\<close>: \<^verbatim>\<open>sql.Open\<close> returns a handle whenever it returns no error, so the
  test \<^verbatim>\<open>resultDB == nil\<close> after a successful \<^verbatim>\<open>retry.Do\<close> never fires.
\<close>

definition OpenDataSource :: "SqliteClient \<Rightarrow> env \<Rightarrow> world \<Rightarrow> error option \<times> world" where
  "OpenDataSource sc env s =
     (case retry_Do_sql_Open env s of
        (Some err, s1) \<Rightarrow> (Some err, s1)
      | (None, s1) \<Rightarrow> (None, s1))"

text \<open>
  \<^verbatim>\<open>GetDB\<close>: when the ping fails the data source is opened again; only a failure of that
  is returned.
\<close>

definition GetDB :: "SqliteClient \<Rightarrow> env \<Rightarrow> world \<Rightarrow> error option \<times> world" where
  "GetDB sc env s =
     (case Ping sc env s of
        (Some perr, s1) \<Rightarrow>
          (case OpenDataSource sc env s1 of
             (Some err, s2) \<Rightarrow> (Some err, s2)
           | (None, s2) \<Rightarrow> (None, s2))
      | (None, s1) \<Rightarrow> (None, s1))"

definition ExecDDL :: "SqliteClient \<Rightarrow> env \<Rightarrow> string \<Rightarrow> world \<Rightarrow> error option \<times> world" where
  "ExecDDL sc env ddl s =
     (case GetDB sc env s of
        (Some err, s1) \<Rightarrow> (Some err, s1)
      | (None, s1) \<Rightarrow> db_Exec env ddl s1)"

text \<open>
  \<^verbatim>\<open>Insert\<close>, \<^verbatim>\<open>Update\<close> and \<^verbatim>\<open>Delete\<close> return \<^verbatim>\<open>(int64, error)\<close>: a pair of the number and
  the error (\<open>None\<close> is \<^verbatim>\<open>nil\<close>). When \<^verbatim>\<open>GetDB\<close> fails they return \<^verbatim>\<open>0, nil\<close>.
\<close>

definition Insert :: "SqliteClient \<Rightarrow> env \<Rightarrow> string \<Rightarrow> string list \<Rightarrow> world \<Rightarrow> (int \<times> error option) \<times> world" where
  "Insert sc env sql args s =
     (case GetDB sc env s of
        (Some err, s1) \<Rightarrow> ((0, None), s1)
      | (None, s1) \<Rightarrow>
          (case db_Prepare env sql s1 of
             (Some err, s2) \<Rightarrow> ((0, Some err), s2)
           | (None, s2) \<Rightarrow>
               (case stmt_Exec env sql args s2 of
                  (Inl err, s3) \<Rightarrow> ((0, Some err), s3)
                | (Inr result, s3) \<Rightarrow> ((LastInsertId result, None), s3))))"

definition Update :: "SqliteClient \<Rightarrow> env \<Rightarrow> string \<Rightarrow> string list \<Rightarrow> world \<Rightarrow> (int \<times> error option) \<times> world" where
  "Update sc env sql args s =
     (case GetDB sc env s of
        (Some err, s1) \<Rightarrow> ((0, None), s1)
      | (None, s1) \<Rightarrow>
          (case db_Prepare env sql s1 of
             (Some err, s2) \<Rightarrow> ((0, Some err), s2)
           | (None, s2) \<Rightarrow>
               (case stmt_Exec env sql args s2 of
                  (Inl err, s3) \<Rightarrow> ((0, Some err), s3)
                | (Inr result, s3) \<Rightarrow> ((RowsAffected result, None), s3))))"

definition Delete :: "SqliteClient \<Rightarrow> env \<Rightarrow> string \<Rightarrow> string list \<Rightarrow> world \<Rightarrow> (int \<times> error option) \<times> world" where
  "Delete sc env sql args s =
     (case GetDB sc env s of
        (Some err, s1) \<Rightarrow> ((0, None), s1)
      | (None, s1) \<Rightarrow>
          (case db_Prepare env sql s1 of
             (Some err, s2) \<Rightarrow> ((0, Some err), s2)
           | (None, s2) \<Rightarrow>
               (case stmt_Exec env sql args s2 of
                  (Inl err, s3) \<Rightarrow> ((0, Some err), s3)
                | (Inr result, s3) \<Rightarrow> ((RowsAffected result, None), s3))))"

text \<open>
  \<^verbatim>\<open>Transaction\<close>: the callback is a function on the world (what it does with the
  \<^verbatim>\<open>*sql.Tx\<close>). When \<^verbatim>\<open>GetDB\<close> fails the result is \<^verbatim>\<open>nil\<close>.
\<close>

definition Transaction :: "SqliteClient \<Rightarrow> env \<Rightarrow> (world \<Rightarrow> error option \<times> world) \<Rightarrow> world \<Rightarrow> error option \<times> world" where
  "Transaction sc env callback s =
     (case GetDB sc env s of
        (Some err, s1) \<Rightarrow> (None, s1)
      | (None, s1) \<Rightarrow>
          (case db_Begin env s1 of
             (Some err, s2) \<Rightarrow> (Some err, s2)
           | (None, s2) \<Rightarrow>
               (case callback s2 of
                  (Some err, s3) \<Rightarrow> (Some err, snd (tx_Rollback env s2 s3))
                | (None, s3) \<Rightarrow> tx_Commit env s2 s3)))"

text \<open>
  \<^verbatim>\<open>Query\<close>. The callback \<^verbatim>\<open>fieldFunc\<close> is a closure over variables of its caller; these
  are the accumulator \<open>acc\<close>, which \<^verbatim>\<open>Query\<close> hands back next to the error. The loop
  \<^verbatim>\<open>for rows.Next()\<close> is \<open>rows_loop\<close>; a failure of \<^verbatim>\<open>rows.Next\<close> itself shows in
  \<^verbatim>\<open>rows.Err()\<close>.
\<close>

fun rows_loop :: "(row \<Rightarrow> 'a \<Rightarrow> world \<Rightarrow> (error option \<times> 'a) \<times> world) \<Rightarrow> row list \<Rightarrow> 'a \<Rightarrow> world
    \<Rightarrow> (error option \<times> 'a) \<times> world" where
  "rows_loop fieldFunc [] acc s = ((None, acc), s)"
| "rows_loop fieldFunc (r # rs) acc s =
     (case fieldFunc r acc s of
        ((Some err, acc1), s1) \<Rightarrow> ((Some err, acc1), s1)
      | ((None, acc1), s1) \<Rightarrow> rows_loop fieldFunc rs acc1 s1)"

definition Query :: "SqliteClient \<Rightarrow> env \<Rightarrow> string \<Rightarrow> (row \<Rightarrow> 'a \<Rightarrow> world \<Rightarrow> (error option \<times> 'a) \<times> world) \<Rightarrow> 'a
    \<Rightarrow> string list \<Rightarrow> world \<Rightarrow> (error option \<times> 'a) \<times> world" where
  "Query sc env query fieldFunc acc args s =
     (case GetDB sc env s of
        (Some err, s1) \<Rightarrow> ((Some err, acc), s1)
      | (None, s1) \<Rightarrow>
          (case db_Query env query args s1 of
             (Inl err, s2) \<Rightarrow> ((Some err, acc), s2)
           | (Inr rows, s2) \<Rightarrow>
               (case rows_loop fieldFunc rows acc s2 of
                  ((Some err, acc1), s3) \<Rightarrow> ((Some err, acc1), s3)
                | ((None, acc1), s3) \<Rightarrow>
                    (case rows_Err env s3 of (err, s4) \<Rightarrow> ((err, acc1), s4)))))"

text \<open>
  \<^verbatim>\<open>Count\<close>. The deferred \<^verbatim>\<open>tx.Commit()\<close> runs after the result is fixed and its error is
  dropped. In the branch \<^verbatim>\<open>countErr != nil\<close> the function returns the variable
  \<^verbatim>\<open>err\<close>, which holds the outcome of \<^verbatim>\<open>db.Begin\<close>.
\<close>

definition Count :: "SqliteClient \<Rightarrow> env \<Rightarrow> string \<Rightarrow> string list \<Rightarrow> world \<Rightarrow> (int \<times> error option) \<times> world" where
  "Count sc env sql args s =
     (case GetDB sc env s of
        (Some err, s1) \<Rightarrow> ((0, Some err), s1)
      | (None, s1) \<Rightarrow>
          (case db_Begin env s1 of
             (err, s2) \<Rightarrow>
               if err \<noteq> None then ((0, err), s2)
               else
                 (case tx_QueryRow_Scan env sql args s2 of
                    (Inl countErr, s3) \<Rightarrow> ((0, err), snd (tx_Commit env s2 s3))
                  | (Inr count, s3) \<Rightarrow> ((count, None), snd (tx_Commit env s2 s3)))))"

section \<open>The migration runner (options.go)\<close>

text \<open>
  \<^verbatim>\<open>SchemaVersionArray\<close>. Its callback (the function literal, named here) scans a row,
  appends the record to \<^verbatim>\<open>svArray\<close> whatever the scan said, and returns the scan's
  error; a \<^verbatim>\<open>nil\<close> result is replaced by an empty slice.
\<close>

definition SchemaVersionArray_func :: "env \<Rightarrow> row \<Rightarrow> SchemaVersion slice \<Rightarrow> world
    \<Rightarrow> (error option \<times> SchemaVersion slice) \<times> world" where
  "SchemaVersionArray_func env r svArray s =
     (case scan_version env r s of
        (Inl err, s1) \<Rightarrow> ((Some err, append_slice svArray zeroSchemaVersion), s1)
      | (Inr sv, s1) \<Rightarrow> ((None, append_slice svArray sv), s1))"

definition SchemaVersionArray :: "SqliteClient \<Rightarrow> env \<Rightarrow> world \<Rightarrow> (error + SchemaVersion slice) \<times> world" where
  "SchemaVersionArray sc env s =
     (case Query sc env SelectSchemaVersionSQL (SchemaVersionArray_func env) NilSlice [] s of
        ((Some err, svArray), s1) \<Rightarrow> (Inl err, s1)
      | ((None, svArray), s1) \<Rightarrow>
          (Inr (if svArray = NilSlice then Slice [] else svArray), s1))"

text \<open>\<^verbatim>\<open>HasTable\<close>; its callback scans the count.\<close>

definition HasTable_func :: "env \<Rightarrow> row \<Rightarrow> int \<Rightarrow> world \<Rightarrow> (error option \<times> int) \<times> world" where
  "HasTable_func env r count s =
     (case scan_int env r s of
        (Inl err, s1) \<Rightarrow> ((Some err, count), s1)
      | (Inr n, s1) \<Rightarrow> ((None, n), s1))"

definition HasTable :: "SqliteClient \<Rightarrow> env \<Rightarrow> string \<Rightarrow> world \<Rightarrow> (error + bool) \<times> world" where
  "HasTable sc env table s =
     (case Query sc env SqliteMasterSQL (HasTable_func env) 0 [table] s of
        ((Some err, count), s1) \<Rightarrow> (Inl err, s1)
      | ((None, count), s1) \<Rightarrow> (Inr (count > 0), s1))"

definition initialSchemaVersion :: "SqliteClient \<Rightarrow> env \<Rightarrow> world \<Rightarrow> error option \<times> world" where
  "initialSchemaVersion sc env s =
     (case HasTable sc env ''schema_version'' s of
        (Inl err, s1) \<Rightarrow> (Some err, s1)
      | (Inr exist, s1) \<Rightarrow>
          if exist then (None, s1) else ExecDDL sc env DDLSchemaVersion s1)"

text \<open>\<^verbatim>\<open>insertSchemaVersion\<close> has no result: an error of \<^verbatim>\<open>Insert\<close> is logged and dropped.\<close>

definition insertSchemaVersion :: "SqliteClient \<Rightarrow> env \<Rightarrow> SchemaVersion \<Rightarrow> world \<Rightarrow> world" where
  "insertSchemaVersion sc env schemaVersion s =
     (case Insert sc env InsertSchemaVersionSQL
             [Script schemaVersion, Checksum schemaVersion,
              ExecutionTime schemaVersion, Status schemaVersion] s of
        ((n, err), s1) \<Rightarrow> s1)"

text \<open>
  \<^verbatim>\<open>readFile\<close>, for the directory entry named \<open>fileInfo\<close> and the records \<open>svArray\<close> read
  at the start of the run. The duration between \<^verbatim>\<open>time.Now()\<close> and \<^verbatim>\<open>time.Since\<close> is
  the environment's, read after \<^verbatim>\<open>ExecDDL\<close> has returned.
\<close>

definition readFile :: "SqliteClient \<Rightarrow> env \<Rightarrow> string \<Rightarrow> SchemaVersion list \<Rightarrow> world \<Rightarrow> error option \<times> world" where
  "readFile sc env fileInfo svArray s =
     (case ioutil_ReadFile env (ddlPath (config sc) @ ''/'' @ fileInfo) s of
        (Inl err, s1) \<Rightarrow> (Some err, s1)
      | (Inr b, s1) \<Rightarrow>
          (case hash64 b of
             Inl err \<Rightarrow> (Some err, s1)
           | Inr checksum \<Rightarrow>
               (case findByScript fileInfo svArray of
                  (True, None) \<Rightarrow> (Some Panic, s1)
                | (True, Some sv) \<Rightarrow>
                    if Checksum sv \<noteq> FormatUint checksum then (Some (FileChanged sv), s1)
                    else (None, s1)
                | (False, sv) \<Rightarrow>
                    (let schemaVersion = zeroSchemaVersion
                           \<lparr>Script := fileInfo,
                            Checksum := FormatUint checksum,
                            Status := SchemaVersionStatusError\<rparr>
                     in case ExecDDL sc env b s1 of
                          (err, s2) \<Rightarrow>
                            (let schemaVersion =
                                   (if err = None
                                    then schemaVersion\<lparr>Status := SchemaVersionStatusSuccess\<rparr>
                                    else schemaVersion);
                                 schemaVersion = schemaVersion
                                   \<lparr>ExecutionTime := shortDur (elapsed env (length (trace s2)))\<rparr>;
                                 s3 = insertSchemaVersion sc env schemaVersion s2
                             in if err \<noteq> None then (err, s3) else (None, s3))))))"

text \<open>The loop \<^verbatim>\<open>for _, f := range files\<close> of \<^verbatim>\<open>executeFlayway\<close>.\<close>

fun readFiles :: "SqliteClient \<Rightarrow> env \<Rightarrow> string list \<Rightarrow> SchemaVersion list \<Rightarrow> world \<Rightarrow> error option \<times> world" where
  "readFiles sc env [] svArray s = (None, s)"
| "readFiles sc env (f # files) svArray s =
     (case readFile sc env f svArray s of
        (Some err, s1) \<Rightarrow> (Some err, s1)
      | (None, s1) \<Rightarrow> readFiles sc env files svArray s1)"

text \<open>\<^verbatim>\<open>executeFlayway\<close>: a directory that cannot be listed ends the run with \<^verbatim>\<open>nil\<close>.\<close>

definition executeFlayway :: "SqliteClient \<Rightarrow> env \<Rightarrow> world \<Rightarrow> error option \<times> world" where
  "executeFlayway sc env s =
     (case ioutil_ReadDir env (ddlPath (config sc)) s of
        (Inl err, s1) \<Rightarrow> (None, s1)
      | (Inr files, s1) \<Rightarrow>
          (case SchemaVersionArray sc env s1 of
             (Inl err, s2) \<Rightarrow> (Some err, s2)
           | (Inr svArray, s2) \<Rightarrow>
               (case hasError (elems svArray) of
                  Some err \<Rightarrow> (Some err, s2)
                | None \<Rightarrow> readFiles sc env files (elems svArray) s2)))"

definition initialFlayway :: "SqliteClient \<Rightarrow> env \<Rightarrow> world \<Rightarrow> error option \<times> world" where
  "initialFlayway sc env s =
     (if \<not> flyway (config sc) then (None, s)
      else
        (case initialSchemaVersion sc env s of
           (Some err, s1) \<Rightarrow> (Some err, s1)
         | (None, s1) \<Rightarrow>
             (case executeFlayway sc env s1 of
                (Some err, s2) \<Rightarrow> (Some err, s2)
              | (None, s2) \<Rightarrow> (None, s2))))"

text \<open>\<^verbatim>\<open>Initial\<close> (client.go): open, ping, migrate.\<close>

definition Initial :: "SqliteClient \<Rightarrow> env \<Rightarrow> world \<Rightarrow> error option \<times> world" where
  "Initial sc env s =
     (case OpenDataSource sc env s of
        (Some err, s1) \<Rightarrow> (Some err, s1)
      | (None, s1) \<Rightarrow>
          (case Ping sc env s1 of
             (Some err, s2) \<Rightarrow> (Some err, s2)
           | (None, s2) \<Rightarrow>
               (case initialFlayway sc env s2 of
                  (Some err, s3) \<Rightarrow> (Some err, s3)
                | (None, s3) \<Rightarrow> (None, s3))))"

section \<open>Notions used to state the properties\<close>


text \<open>
  The step from \<open>s\<close> to \<open>s'\<close> left the table \<^verbatim>\<open>schema_version\<close> and its counter as
  they were, and only added calls to the trace.
\<close>

definition same_db :: "world \<Rightarrow> world \<Rightarrow> bool" where
  "same_db s s' =
     (schema_version s' = schema_version s \<and> seq s' = seq s \<and> (\<exists>new. trace s' = trace s @ new))"



text \<open>The records of the ledger in a state (none while the table does not exist).\<close>

definition ledger_rows :: "world \<Rightarrow> SchemaVersion list" where
  "ledger_rows s = (case schema_version s of None \<Rightarrow> [] | Some rs \<Rightarrow> rs)"

text \<open>
  The last call of \<^verbatim>\<open>ExecDDL\<close>: the execution of the text, or the reopening of the data
  source that failed.
\<close>

fun ends_script :: "call \<times> string option \<Rightarrow> bool" where
  "ends_script (DbExec ddl, out) = True"
| "ends_script (SqlOpen, Some m) = True"
| "ends_script e = False"

text \<open>
  The failed calls of a run (entry \<open>i\<close> of the calls \<open>tr\<close> it made) that are not the
  error the run returns:
  \<^item> the listing of the script directory (after which the run returns \<^verbatim>\<open>nil\<close>);
  \<^item> a ping after which the data source is reopened (\<^verbatim>\<open>GetDB\<close>: only a failure of the
    reopening is an error);
  \<^item> the calls of the insertion of a record: the reopening of the data source after the
    ping that follows the execution of a script, and the preparation and the execution of
    \<^verbatim>\<open>InsertSchemaVersionSQL\<close>.
\<close>

definition dropped :: "(call \<times> string option) list \<Rightarrow> nat \<Rightarrow> bool" where
  "dropped tr i =
     (case fst (tr ! i) of
        ReadDir path \<Rightarrow> True
      | DbPing \<Rightarrow> Suc i < length tr \<and> fst (tr ! Suc i) = SqlOpen
      | SqlOpen \<Rightarrow> 2 \<le> i \<and> fst (tr ! (i - 1)) = DbPing \<and> ends_script (tr ! (i - 2))
      | DbPrepare query \<Rightarrow> query = InsertSchemaVersionSQL
      | StmtExec query args \<Rightarrow> query = InsertSchemaVersionSQL
      | _ \<Rightarrow> False)"

text \<open>
  The step from \<open>s\<close> to \<open>s'\<close> added calls to the trace, and every failed one among
  them that is not of the kinds above is the error \<open>r\<close>.
\<close>

definition returned :: "error option \<Rightarrow> world \<Rightarrow> world \<Rightarrow> bool" where
  "returned r s s' =
     (\<exists>new. trace s' = trace s @ new
        \<and> (\<forall>i m. i < length new \<and> snd (new ! i) = Some m \<and> \<not> dropped new i
              \<longrightarrow> r = Some (External m)))"

text \<open>
  The calls of a table check or of a ledger query (obtaining the handle, the query, its
  rows), and the calls that read the script directory or a script file. None of them
  executes a script or inserts a record.
\<close>

fun query_call :: "call \<Rightarrow> bool" where
  "query_call DbPing = True"
| "query_call SqlOpen = True"
| "query_call (DbQuery query args) = True"
| "query_call RowsScan = True"
| "query_call RowsErr = True"
| "query_call c = False"


text \<open>The step from \<open>s\<close> to \<open>s'\<close> added entries to the trace, all of which satisfy \<open>P\<close>.\<close>

definition only :: "(call \<times> string option \<Rightarrow> bool) \<Rightarrow> world \<Rightarrow> world \<Rightarrow> bool" where
  "only P s s' = (\<exists>new. trace s' = trace s @ new \<and> list_all P new)"

subsection \<open>Example inputs\<close>

text \<open>
  A client configured with the script directory \<^verbatim>\<open>mig\<close>, which holds two scripts, and
  one configured with the directory \<^verbatim>\<open>one\<close>, which holds one; an empty database;
  environments without faults, with a data source that cannot be opened, and with a count
  query whose scan fails. In these environments no executed text touches the ledger. The
  file system also holds the directory \<^verbatim>\<open>tamper\<close>, whose script inserts an ERROR record
  into the ledger table, and the directory \<^verbatim>\<open>wipe\<close>, whose script empties the ledger
  table and then fails.
\<close>

definition sc0 :: SqliteClient where
  "sc0 = NewSqliteClient ''test.db'' [DDLPath ''mig'']"

definition sc_one :: SqliteClient where
  "sc_one = NewSqliteClient ''test.db'' [DDLPath ''one'']"

definition tamper_sql :: string where
  "tamper_sql =
     ''insert into schema_version (script, checksum, execution_time, status) values ('x', '0', '0s', 'ERROR')''"

definition wipe_sql :: string where
  "wipe_sql = ''delete from schema_version; bogus''"

definition env0 :: env where
  "env0 = \<lparr>fault = (\<lambda>t. None),
           fs_dir = (\<lambda>p. if p = ''mig'' then Some [''a.sql'', ''b.sql'']
                          else if p = ''one'' \<or> p = ''tamper'' \<or> p = ''wipe''
                          then Some [''a.sql''] else None),
           fs_file = (\<lambda>p. if p = ''mig/a.sql'' then Some ''create table t''
                           else if p = ''mig/b.sql'' then Some ''insert into t''
                           else if p = ''one/a.sql'' then Some ''create table if not exists t (x integer)''
                           else if p = ''tamper/a.sql'' then Some tamper_sql
                           else if p = ''wipe/a.sql'' then Some wipe_sql else None),
           elapsed = (\<lambda>t. ''1m0s''), timestamp = (\<lambda>t. ''now''),
           opaque_int = (\<lambda>t. 7), opaque_rows = (\<lambda>t. []),
           exec_effect = (\<lambda>t ddl ok l. l)\<rparr>"

definition w0 :: world where
  "w0 = \<lparr>schema_version = None, seq = 0, trace = []\<rparr>"

definition env_down :: env where
  "env_down = env0\<lparr>fault := (\<lambda>t. Some ''unable to open database file'')\<rparr>"

definition env_norows :: env where
  "env_norows =
     env0\<lparr>fault := (\<lambda>t. if t = 2 then Some ''sql: no rows in result set'' else None)\<rparr>"

text \<open>
  A client whose script directory does not exist; a database whose ledger exists and is
  empty; a ledger with an ERROR record; a ledger whose record of \<^verbatim>\<open>b.sql\<close> has another
  checksum than the file.
\<close>

definition sc_missing :: SqliteClient where
  "sc_missing = NewSqliteClient ''test.db'' [DDLPath ''nowhere'']"

definition w_led :: world where
  "w_led = \<lparr>schema_version = Some [], seq = 0, trace = []\<rparr>"

definition rows_err :: "SchemaVersion list" where
  "rows_err =
     [\<lparr>Id_sv = 1, Script = ''a.sql'', Checksum = ''17023569199509023737'',
       ExecutionTime = ''1m'', Status = ''ERROR'', CreatedTime = ''now''\<rparr>]"

definition w_err :: world where
  "w_err = \<lparr>schema_version = Some rows_err, seq = 1, trace = []\<rparr>"

definition rows_changed :: "SchemaVersion list" where
  "rows_changed =
     [\<lparr>Id_sv = 1, Script = ''a.sql'', Checksum = ''17023569199509023737'',
       ExecutionTime = ''1m'', Status = ''SUCCESS'', CreatedTime = ''now''\<rparr>,
      \<lparr>Id_sv = 2, Script = ''b.sql'', Checksum = ''1'',
       ExecutionTime = ''1m'', Status = ''SUCCESS'', CreatedTime = ''now''\<rparr>]"

definition w_changed :: world where
  "w_changed = \<lparr>schema_version = Some rows_changed, seq = 2, trace = []\<rparr>"



definition env_insfail :: env where
  "env_insfail = env0\<lparr>fault := (\<lambda>t. if t = 14 then Some ''database is locked'' else None)\<rparr>"

text \<open>The states of the example runs after each step, named for the statements below.\<close>

definition missing_1 :: world where
  "missing_1 = snd (initialSchemaVersion sc_missing env0 w0)"

definition missing_2 :: world where
  "missing_2 = snd (ioutil_ReadDir env0 (ddlPath (config sc_missing)) missing_1)"

definition err_1 :: world where
  "err_1 = snd (initialSchemaVersion sc0 env0 w_err)"

definition err_2 :: world where
  "err_2 = snd (ioutil_ReadDir env0 (ddlPath (config sc0)) err_1)"

definition err_3 :: world where
  "err_3 = snd (SchemaVersionArray sc0 env0 err_2)"

definition changed_1 :: world where
  "changed_1 = snd (initialSchemaVersion sc0 env0 w_changed)"

definition changed_2 :: world where
  "changed_2 = snd (ioutil_ReadDir env0 (ddlPath (config sc0)) changed_1)"

definition changed_3 :: world where
  "changed_3 = snd (SchemaVersionArray sc0 env0 changed_2)"

definition changed_4 :: world where
  "changed_4 = snd (readFiles sc0 env0 [''a.sql''] rows_changed changed_3)"

definition changed_5 :: world where
  "changed_5 = snd (ioutil_ReadFile env0 (ddlPath (config sc0) @ ''/'' @ ''b.sql'') changed_4)"








definition rows_applied :: "SchemaVersion list" where
  "rows_applied =
     [\<lparr>Id_sv = 1, Script = ''a.sql'', Checksum = ''1255831561887079968'',
       ExecutionTime = ''1m'', Status = ''SUCCESS'', CreatedTime = ''now''\<rparr>]"

text \<open>
  A run of \<open>Initial\<close> in which, before the statement of the script, the ping fails and
  the data source cannot be reopened (calls 11 and 12 from \<open>w_led\<close>), and the state it
  ends in; a database whose ledger records the script of the directory \<^verbatim>\<open>one\<close>, and the
  state in which a run of \<open>Initial\<close> on it ends.
\<close>

definition env_reopen :: env where
  "env_reopen =
     env0\<lparr>fault := (\<lambda>t. if t = 11 \<or> t = 12 then Some ''unable to open database file''
                          else None)\<rparr>"

definition reopen_run :: world where
  "reopen_run = snd (Initial sc_one env_reopen w_led)"

definition w_applied :: world where
  "w_applied = \<lparr>schema_version = Some rows_applied, seq = 1, trace = []\<rparr>"

definition applied_run :: world where
  "applied_run = snd (Initial sc_one env0 w_applied)"










section \<open>Properties\<close>

subsection \<open>What each operation does to the database and to the trace\<close>

lemma fnv_Write_fold:
  "fnv_Write h s = (fold (\<lambda>c h. (h * prime64) XOR of_char c) s h, None)"
  by (induction s arbitrary: h) simp_all

lemma same_db_refl [simp]: "same_db s s"
  by (simp add: same_db_def)

lemma same_db_trans: "same_db s s1 \<Longrightarrow> same_db s1 s2 \<Longrightarrow> same_db s s2"
  by (auto simp: same_db_def)

lemma lib_call_same_db: "lib_call env c own s = (r, s') \<Longrightarrow> same_db s s'"
  by (auto simp: lib_call_def same_db_def Let_def)

lemma GetDB_same_db: "GetDB sc env s = (r, s') \<Longrightarrow> same_db s s'"
  unfolding GetDB_def Ping_def OpenDataSource_def db_Ping_def retry_Do_sql_Open_def
  by (auto simp: same_db_def split: prod.splits option.splits dest!: lib_call_same_db)

lemma db_Query_same_db: "db_Query env q args s = (r, s') \<Longrightarrow> same_db s s'"
  unfolding db_Query_def
  by (auto split: prod.splits option.splits dest!: lib_call_same_db)

lemma rows_Err_same_db: "rows_Err env s = (r, s') \<Longrightarrow> same_db s s'"
  unfolding rows_Err_def by (rule lib_call_same_db)

lemma scan_version_same_db: "scan_version env r s = (x, s') \<Longrightarrow> same_db s s'"
  unfolding scan_version_def
  by (auto split: prod.splits option.splits row.splits dest!: lib_call_same_db)

lemma scan_int_same_db: "scan_int env r s = (x, s') \<Longrightarrow> same_db s s'"
  unfolding scan_int_def
  by (auto split: prod.splits option.splits row.splits dest!: lib_call_same_db)

lemma rows_loop_same_db:
  assumes cb: "\<forall>r acc s x s'. fieldFunc r acc s = (x, s') \<longrightarrow> same_db s s'"
  shows "rows_loop fieldFunc rs acc s = (x, s') \<Longrightarrow> same_db s s'"
proof (induction rs arbitrary: acc s)
  case Nil
  then show ?case by simp
next
  case (Cons r rs)
  then show ?case
    using cb by (auto split: prod.splits option.splits) (blast intro: same_db_trans)
qed

lemma Query_same_db:
  assumes cb: "\<forall>r acc s x s'. fieldFunc r acc s = (x, s') \<longrightarrow> same_db s s'"
    and q: "Query sc env query fieldFunc acc args s = (x, s')"
  shows "same_db s s'"
  using q unfolding Query_def
  by (auto split: prod.splits option.splits sum.splits
      dest!: GetDB_same_db db_Query_same_db rows_Err_same_db rows_loop_same_db [OF cb]
      intro: same_db_trans)

lemma SchemaVersionArray_func_same_db:
  "SchemaVersionArray_func env r acc s = (x, s') \<Longrightarrow> same_db s s'"
  unfolding SchemaVersionArray_func_def
  by (auto split: prod.splits sum.splits dest!: scan_version_same_db)

lemma HasTable_func_same_db:
  "HasTable_func env r acc s = (x, s') \<Longrightarrow> same_db s s'"
  unfolding HasTable_func_def
  by (auto split: prod.splits sum.splits dest!: scan_int_same_db)

lemma SchemaVersionArray_same_db: "SchemaVersionArray sc env s = (x, s') \<Longrightarrow> same_db s s'"
  unfolding SchemaVersionArray_def
  by (auto split: prod.splits option.splits sum.splits
      dest!: Query_same_db [rotated] SchemaVersionArray_func_same_db)

lemma HasTable_same_db: "HasTable sc env t s = (x, s') \<Longrightarrow> same_db s s'"
  unfolding HasTable_def
  by (auto split: prod.splits option.splits sum.splits
      dest!: Query_same_db [rotated] HasTable_func_same_db)

lemma ioutil_ReadDir_same_db: "ioutil_ReadDir env p s = (x, s') \<Longrightarrow> same_db s s'"
  unfolding ioutil_ReadDir_def
  by (auto split: prod.splits option.splits dest!: lib_call_same_db)



lemma sql_texts_distinct [simp]:
  "SqliteMasterSQL \<noteq> SelectSchemaVersionSQL"
  "SelectSchemaVersionSQL \<noteq> SqliteMasterSQL"
  by (simp_all add: SqliteMasterSQL_def SelectSchemaVersionSQL_def)

lemma status_distinct [simp]:
  "SchemaVersionStatusSuccess \<noteq> SchemaVersionStatusError"
  "SchemaVersionStatusError \<noteq> SchemaVersionStatusSuccess"
  by (simp_all add: SchemaVersionStatusSuccess_def SchemaVersionStatusError_def)

lemma db_Query_master:
  assumes "db_Query env SqliteMasterSQL [''schema_version''] s = (Inr rows, s')"
  shows "rows = [IntRow (if schema_version s = None then 0 else 1)]"
  using assms by (auto simp: db_Query_def split: prod.splits option.splits)

lemma db_Query_select:
  assumes "db_Query env SelectSchemaVersionSQL [] s = (Inr rows, s')"
  shows "\<exists>rs. schema_version s = Some rs \<and> rows = map VersionRow rs"
proof (cases "schema_version s")
  case None
  with assms show ?thesis
    by (auto simp: db_Query_def lib_call_def Let_def split: prod.splits option.splits)
next
  case (Some rs)
  with assms show ?thesis
    by (auto simp: db_Query_def split: prod.splits option.splits)
qed

lemma HasTable_result:
  assumes "HasTable sc env ''schema_version'' s = (Inr ex, s')"
  shows "ex = (schema_version s \<noteq> None)"
proof -
  from assms obtain s1 s2 rows x s3 where g: "GetDB sc env s = (None, s1)"
    and q: "db_Query env SqliteMasterSQL [''schema_version''] s1 = (Inr rows, s2)"
    and l: "rows_loop (HasTable_func env) rows 0 s2 = ((None, x), s3)"
    and e: "ex = (x > 0)"
    unfolding HasTable_def Query_def
    by (auto split: prod.splits option.splits sum.splits)
  from GetDB_same_db [OF g] have "schema_version s1 = schema_version s"
    by (simp add: same_db_def)
  with db_Query_master [OF q]
  have "rows = [IntRow (if schema_version s = None then 0 else 1)]" by simp
  with l e show ?thesis
    by (auto simp: HasTable_func_def scan_int_def split: prod.splits option.splits if_splits)
qed

lemma SchemaVersionArray_func_None:
  "SchemaVersionArray_func env (VersionRow r) acc s = ((None, acc1), s1)
   \<Longrightarrow> acc1 = append_slice acc r"
  unfolding SchemaVersionArray_func_def scan_version_def
  by (auto split: prod.splits option.splits sum.splits)

lemma version_loop_result:
  "rows_loop (SchemaVersionArray_func env) (map VersionRow rs) acc s = ((None, acc'), s')
   \<Longrightarrow> acc' = (if rs = [] then acc else Slice (elems acc @ rs))"
proof (induction rs arbitrary: acc s)
  case Nil
  then show ?case by simp
next
  case (Cons r rs)
  obtain e acc1 s1 where
    f: "SchemaVersionArray_func env (VersionRow r) acc s = ((e, acc1), s1)"
    by (metis prod.exhaust)
  with Cons.prems have e: "e = None"
    and t: "rows_loop (SchemaVersionArray_func env) (map VersionRow rs) acc1 s1
       = ((None, acc'), s')"
    by (auto split: option.splits)
  from f e have "acc1 = append_slice acc r"
    by (auto dest: SchemaVersionArray_func_None)
  with Cons.IH [OF t] show ?case
    by (cases acc) auto
qed

lemma SchemaVersionArray_result:
  assumes "SchemaVersionArray sc env s = (Inr sl, s')"
  shows "\<exists>rs. schema_version s = Some rs \<and> sl = Slice rs"
proof -
  from assms obtain s1 s2 rows x s3 where g: "GetDB sc env s = (None, s1)"
    and q: "db_Query env SelectSchemaVersionSQL [] s1 = (Inr rows, s2)"
    and l: "rows_loop (SchemaVersionArray_func env) rows NilSlice s2 = ((None, x), s3)"
    and e: "sl = (if x = NilSlice then Slice [] else x)"
    unfolding SchemaVersionArray_def Query_def
    by (auto split: prod.splits option.splits sum.splits)
  from GetDB_same_db [OF g] have "schema_version s1 = schema_version s"
    by (simp add: same_db_def)
  with db_Query_select [OF q] obtain rs where
    rs: "schema_version s = Some rs" "rows = map VersionRow rs" by auto
  from l rs have "x = (if rs = [] then NilSlice else Slice (elems NilSlice @ rs))"
    by (auto dest!: version_loop_result)
  with e rs show ?thesis by auto
qed


lemma db_Exec_trace:
  "db_Exec env ddl s = (r, s') \<Longrightarrow>
   \<exists>out. trace s' = trace s @ [(DbExec ddl, out)] \<and> r = map_option External out"
  unfolding db_Exec_def lib_call_def
  by (auto simp: Let_def split: prod.splits if_splits)

lemma db_Exec_DDL_effect:
  assumes "db_Exec env DDLSchemaVersion s = (r, s')"
  shows "seq s' = seq s \<and> (\<exists>new. trace s' = trace s @ new)
       \<and> schema_version s' =
           (if r = None \<and> schema_version s = None then Some [] else schema_version s)"
  using assms unfolding db_Exec_def
  by (auto simp: same_db_def split: prod.splits option.splits if_splits dest!: lib_call_same_db)


lemma ExecDDL_DDL_effect:
  assumes "ExecDDL sc env DDLSchemaVersion s = (r, s')"
  shows "seq s' = seq s \<and> (\<exists>new. trace s' = trace s @ new)
       \<and> schema_version s' =
           (if r = None \<and> schema_version s = None then Some [] else schema_version s)"
  using assms unfolding ExecDDL_def
  by (auto simp: same_db_def split: prod.splits option.splits
      dest!: GetDB_same_db db_Exec_DDL_effect)


lemma initialSchemaVersion_effect:
  assumes "initialSchemaVersion sc env s = (None, s')"
  shows "schema_version s' = Some (case schema_version s of None \<Rightarrow> [] | Some rs \<Rightarrow> rs)
       \<and> seq s' = seq s \<and> (\<exists>new. trace s' = trace s @ new)"
proof -
  from assms obtain ex s1 where h: "HasTable sc env ''schema_version'' s = (Inr ex, s1)"
    and r: "if ex then s' = s1 else ExecDDL sc env DDLSchemaVersion s1 = (None, s')"
    unfolding initialSchemaVersion_def
    by (auto split: prod.splits sum.splits if_splits)
  note e = HasTable_result [OF h] and f = HasTable_same_db [OF h]
  show ?thesis
  proof (cases ex)
    case True
    with r e f show ?thesis by (auto simp: same_db_def)
  next
    case False
    with r have "ExecDDL sc env DDLSchemaVersion s1 = (None, s')" by simp
    from ExecDDL_DDL_effect [OF this] False e f show ?thesis
      by (auto simp: same_db_def)
  qed
qed

lemma initialSchemaVersion_same_db:
  "initialSchemaVersion sc env s = (r, s') \<Longrightarrow> schema_version s \<noteq> None \<Longrightarrow> same_db s s'"
  unfolding initialSchemaVersion_def
  by (auto simp: same_db_def split: prod.splits sum.splits if_splits
      dest!: HasTable_same_db ExecDDL_DDL_effect)









lemma hash64_Inr: "hash64 b = Inr (fst (fnv_Write offset64 b))"
  by (simp add: hash64_def fnv_Write_fold)

lemma findByScript_cases:
  "findByScript f svs = (False, None)
   \<or> (\<exists>sv. findByScript f svs = (True, Some sv) \<and> sv \<in> set svs \<and> Script sv = f)"
  by (induction svs) auto




lemma ioutil_ReadDir_Inl:
  assumes "ioutil_ReadDir env p s = (Inl e, s')"
  shows "\<exists>m. e = External m \<and> s' = s\<lparr>trace := trace s @ [(ReadDir p, Some m)]\<rparr>"
  using assms unfolding ioutil_ReadDir_def lib_call_def
  by (auto simp: Let_def split: option.splits)

lemma ioutil_ReadDir_Inr:
  assumes "ioutil_ReadDir env p s = (Inr files, s')"
  shows "fs_dir env p = Some files \<and> s' = s\<lparr>trace := trace s @ [(ReadDir p, None)]\<rparr>"
  using assms unfolding ioutil_ReadDir_def lib_call_def
  by (auto simp: Let_def split: option.splits)

lemma ioutil_ReadFile_Inr:
  assumes "ioutil_ReadFile env p s = (Inr b, s')"
  shows "fs_file env p = Some b \<and> s' = s\<lparr>trace := trace s @ [(ReadFile p, None)]\<rparr>"
  using assms unfolding ioutil_ReadFile_def lib_call_def
  by (auto simp: Let_def split: option.splits)

lemma readFile_read_error:
  "ioutil_ReadFile env (ddlPath (config sc) @ ''/'' @ f) s = (Inl e, s1) \<Longrightarrow>
   readFile sc env f svs s = (Some e, s1)"
  by (simp add: readFile_def)

lemma readFile_found:
  "ioutil_ReadFile env (ddlPath (config sc) @ ''/'' @ f) s = (Inr b, s1) \<Longrightarrow>
   findByScript f svs = (True, Some sv) \<Longrightarrow>
   readFile sc env f svs s =
     (if Checksum sv \<noteq> FormatUint (fst (fnv_Write offset64 b))
      then (Some (FileChanged sv), s1) else (None, s1))"
  by (simp add: readFile_def hash64_Inr)

lemma readFile_new:
  "ioutil_ReadFile env (ddlPath (config sc) @ ''/'' @ f) s = (Inr b, s1) \<Longrightarrow>
   findByScript f svs = (False, None) \<Longrightarrow>
   ExecDDL sc env b s1 = (e, s2) \<Longrightarrow>
   readFile sc env f svs s =
     (e, insertSchemaVersion sc env
           \<lparr>Id_sv = 0, Script = f, Checksum = FormatUint (fst (fnv_Write offset64 b)),
            ExecutionTime = shortDur (elapsed env (length (trace s2))),
            Status = (if e = None then SchemaVersionStatusSuccess else SchemaVersionStatusError),
            CreatedTime = []\<rparr> s2)"
  by (cases e) (simp_all add: readFile_def hash64_Inr zeroSchemaVersion_def Let_def)



lemma readFiles_append:
  "readFiles sc env (pre @ post) svs s =
     (case readFiles sc env pre svs s of
        (Some err, s1) \<Rightarrow> (Some err, s1)
      | (None, s1) \<Rightarrow> readFiles sc env post svs s1)"
  by (induction pre arbitrary: s) (auto split: prod.splits option.splits)


lemma hasError_Some:
  "sv \<in> set svs \<Longrightarrow> Status sv = SchemaVersionStatusError \<Longrightarrow>
   \<exists>sv'. hasError svs = Some (AbnormalState sv') \<and> sv' \<in> set svs
         \<and> Status sv' = SchemaVersionStatusError"
  by (induction svs) auto






subsection \<open>The kinds of calls an operation makes\<close>

lemma only_refl [simp]: "only P s s"
  by (simp add: only_def)

lemma only_trans: "only P s s1 \<Longrightarrow> only P s1 s2 \<Longrightarrow> only P s s2"
  by (auto simp: only_def)


lemma lib_call_only:
  "lib_call env c own s = (r, s') \<Longrightarrow> \<forall>out. P (c, out) \<Longrightarrow> only P s s'"
  by (auto simp: lib_call_def only_def Let_def)

lemma GetDB_only:
  assumes "\<forall>c out. query_call c \<longrightarrow> P (c, out)"
  shows "GetDB sc env s = (r, s') \<Longrightarrow> only P s s'"
  unfolding GetDB_def Ping_def OpenDataSource_def db_Ping_def retry_Do_sql_Open_def
  using assms
  by (auto split: prod.splits option.splits dest!: lib_call_only [where P = P]
      intro: only_trans)

lemma db_Query_only:
  assumes "\<forall>c out. query_call c \<longrightarrow> P (c, out)"
  shows "db_Query env q args s = (x, s') \<Longrightarrow> only P s s'"
  unfolding db_Query_def using assms
  by (auto split: prod.splits option.splits dest!: lib_call_only [where P = P])

lemma rows_Err_only:
  assumes "\<forall>c out. query_call c \<longrightarrow> P (c, out)"
  shows "rows_Err env s = (r, s') \<Longrightarrow> only P s s'"
  unfolding rows_Err_def using assms by (auto dest!: lib_call_only [where P = P])

lemma HasTable_func_only:
  assumes "\<forall>c out. query_call c \<longrightarrow> P (c, out)"
  shows "HasTable_func env row acc s = (x, s') \<Longrightarrow> only P s s'"
  unfolding HasTable_func_def scan_int_def using assms
  by (auto split: prod.splits sum.splits row.splits option.splits
      dest!: lib_call_only [where P = P])

lemma SchemaVersionArray_func_only:
  assumes "\<forall>c out. query_call c \<longrightarrow> P (c, out)"
  shows "SchemaVersionArray_func env row acc s = (x, s') \<Longrightarrow> only P s s'"
  unfolding SchemaVersionArray_func_def scan_version_def using assms
  by (auto split: prod.splits sum.splits row.splits option.splits
      dest!: lib_call_only [where P = P])

lemma rows_loop_only:
  assumes cb: "\<forall>row acc s x s'. fieldFunc row acc s = (x, s') \<longrightarrow> only P s s'"
  shows "rows_loop fieldFunc rows acc s = (x, s') \<Longrightarrow> only P s s'"
proof (induction rows arbitrary: acc s)
  case Nil
  then show ?case by simp
next
  case (Cons row rows)
  then show ?case
    using cb by (auto split: prod.splits option.splits) (blast intro: only_trans)
qed

lemma Query_only:
  assumes p: "\<forall>c out. query_call c \<longrightarrow> P (c, out)"
    and cb: "\<forall>row acc s x s'. fieldFunc row acc s = (x, s') \<longrightarrow> only P s s'"
    and q: "Query sc env query fieldFunc acc args s = (x, s')"
  shows "only P s s'"
proof -
  obtain g s1 where g: "GetDB sc env s = (g, s1)" by (metis prod.exhaust)
  note o1 = GetDB_only [OF p g]
  show ?thesis
  proof (cases g)
    case (Some err)
    with q g o1 show ?thesis by (simp add: Query_def)
  next
    case None
    obtain d s2 where d: "db_Query env query args s1 = (d, s2)" by (metis prod.exhaust)
    from o1 db_Query_only [OF p d] have o2: "only P s s2" by (rule only_trans)
    show ?thesis
    proof (cases d)
      case (Inl err)
      with q g None d o2 show ?thesis by (simp add: Query_def)
    next
      case (Inr rows)
      obtain e acc1 s3 where l: "rows_loop fieldFunc rows acc s2 = ((e, acc1), s3)"
        by (metis prod.exhaust)
      from o2 rows_loop_only [OF cb l] have o3: "only P s s3" by (rule only_trans)
      show ?thesis
      proof (cases e)
        case (Some err)
        with q g None d Inr l o3 show ?thesis by (simp add: Query_def)
      next
        case n: None
        obtain e4 s4 where re: "rows_Err env s3 = (e4, s4)" by (metis prod.exhaust)
        from o3 rows_Err_only [OF p re] have "only P s s4" by (rule only_trans)
        with q g None d Inr l n re show ?thesis by (simp add: Query_def)
      qed
    qed
  qed
qed

lemma HasTable_only:
  assumes p: "\<forall>c out. query_call c \<longrightarrow> P (c, out)"
    and h: "HasTable sc env t s = (x, s')"
  shows "only P s s'"
proof -
  have cb: "\<forall>row acc s x s'. HasTable_func env row acc s = (x, s') \<longrightarrow> only P s s'"
    using HasTable_func_only [OF p] by blast
  from h show ?thesis
    unfolding HasTable_def
    by (auto split: prod.splits option.splits dest!: Query_only [OF p cb])
qed

lemma SchemaVersionArray_only:
  assumes p: "\<forall>c out. query_call c \<longrightarrow> P (c, out)"
    and h: "SchemaVersionArray sc env s = (x, s')"
  shows "only P s s'"
proof -
  have cb: "\<forall>row acc s x s'. SchemaVersionArray_func env row acc s = (x, s') \<longrightarrow> only P s s'"
    using SchemaVersionArray_func_only [OF p] by blast
  from h show ?thesis
    unfolding SchemaVersionArray_def
    by (auto split: prod.splits option.splits dest!: Query_only [OF p cb])
qed

lemma initialSchemaVersion_only:
  assumes p: "\<forall>c out. query_call c \<longrightarrow> P (c, out)"
    and i: "initialSchemaVersion sc env s = (r, s')"
    and t: "schema_version s \<noteq> None"
  shows "only P s s'"
proof -
  obtain x s1 where h: "HasTable sc env ''schema_version'' s = (x, s1)"
    by (metis prod.exhaust)
  note o = HasTable_only [OF p h]
  show ?thesis
  proof (cases x)
    case (Inl e)
    with i h o show ?thesis by (simp add: initialSchemaVersion_def)
  next
    case (Inr ex)
    with h HasTable_result [of sc env s ex s1] t have "ex" by simp
    with i h Inr o show ?thesis by (simp add: initialSchemaVersion_def)
  qed
qed

lemma ioutil_ReadDir_only:
  "ioutil_ReadDir env p s = (x, s') \<Longrightarrow> \<forall>out. P (ReadDir p, out) \<Longrightarrow> only P s s'"
  unfolding ioutil_ReadDir_def
  by (auto split: prod.splits option.splits dest!: lib_call_only [where P = P])

subsection \<open>Runs without faults\<close>

















subsection \<open>Which failures reach the caller\<close>

lemma dropped_appendL: "i < length xs \<Longrightarrow> dropped xs i \<Longrightarrow> dropped (xs @ ys) i"
  by (auto simp: dropped_def nth_append split: call.splits)

lemma dropped_appendR: "dropped ys j \<Longrightarrow> dropped (xs @ ys) (length xs + j)"
proof -
  assume d: "dropped ys j"
  have a: "(xs @ ys) ! (length xs + j) = ys ! j" by simp
  have b: "(xs @ ys) ! Suc (length xs + j) = ys ! Suc j"
    using nth_append_length_plus [of xs ys "Suc j"] by simp
  have c: "2 \<le> j \<Longrightarrow> (xs @ ys) ! (length xs + j - 1) = ys ! (j - 1)"
    using nth_append_length_plus [of xs ys "j - 1"] by simp
  have e: "2 \<le> j \<Longrightarrow> (xs @ ys) ! (length xs + j - 2) = ys ! (j - 2)"
    using nth_append_length_plus [of xs ys "j - 2"] by simp
  from d b c e show ?thesis
    unfolding dropped_def a
    by (cases "fst (ys ! j)") (auto simp del: nth_append_length_plus)
qed

lemma dropped_after_last:
  assumes "xs \<noteq> []" and "dropped (last xs # ys) (Suc j)"
  shows "dropped (xs @ ys) (length xs + j)"
proof -
  from assms(1) have l: "length (butlast xs) + Suc j = length xs + j"
    by (cases xs) auto
  from assms(1) have e: "butlast xs @ (last xs # ys) = xs @ ys" by simp
  have "dropped (butlast xs @ (last xs # ys)) (length (butlast xs) + Suc j)"
    using assms(2) by (rule dropped_appendR)
  then show ?thesis by (simp only: l e)
qed

lemma returned_refl [simp]: "returned r s s"
  by (simp add: returned_def)

lemma returned_None: "returned None s s' \<Longrightarrow> returned r s s'"
  unfolding returned_def by blast

lemma returned_trans:
  assumes "returned r s s1" and "returned r s1 s2"
  shows "returned r s s2"
proof -
  from assms(1) obtain n1 where n1: "trace s1 = trace s @ n1"
    and r1: "\<forall>i m. i < length n1 \<and> snd (n1 ! i) = Some m \<and> \<not> dropped n1 i
              \<longrightarrow> r = Some (External m)"
    unfolding returned_def by blast
  from assms(2) obtain n2 where n2: "trace s2 = trace s1 @ n2"
    and r2: "\<forall>i m. i < length n2 \<and> snd (n2 ! i) = Some m \<and> \<not> dropped n2 i
              \<longrightarrow> r = Some (External m)"
    unfolding returned_def by blast
  have "\<forall>i m. i < length (n1 @ n2) \<and> snd ((n1 @ n2) ! i) = Some m \<and> \<not> dropped (n1 @ n2) i
              \<longrightarrow> r = Some (External m)"
  proof (intro allI impI)
    fix i m
    assume a: "i < length (n1 @ n2) \<and> snd ((n1 @ n2) ! i) = Some m \<and> \<not> dropped (n1 @ n2) i"
    show "r = Some (External m)"
    proof (cases "i < length n1")
      case True
      with a have "snd (n1 ! i) = Some m" by (simp add: nth_append)
      moreover from a True have "\<not> dropped n1 i" by (blast dest: dropped_appendL)
      ultimately show ?thesis using r1 True by blast
    next
      case False
      define j where "j = i - length n1"
      with False have i: "i = length n1 + j" by simp
      with a have j: "j < length n2" "snd (n2 ! j) = Some m" by simp_all
      from a i have "\<not> dropped n2 j" by (blast dest: dropped_appendR)
      with j r2 show ?thesis by blast
    qed
  qed
  moreover from n1 n2 have "trace s2 = trace s @ (n1 @ n2)" by simp
  ultimately show ?thesis unfolding returned_def by blast
qed

lemma returned_then: "returned None s s1 \<Longrightarrow> returned r s1 s2 \<Longrightarrow> returned r s s2"
  by (blast intro: returned_trans returned_None)

lemma lib_call_returned: "lib_call env c own s = (r, s') \<Longrightarrow> returned r s s'"
  by (auto simp: lib_call_def returned_def Let_def split: option.splits)

lemma lib_call_dropped:
  "lib_call env c own s = (r, s') \<Longrightarrow> \<forall>out. dropped [(c, out)] 0 \<Longrightarrow> returned None s s'"
  by (auto simp: lib_call_def returned_def Let_def)

lemma GetDB_trace:
  assumes "GetDB sc env s = (r, s')"
  shows "(r = None \<and> trace s' = trace s @ [(DbPing, None)])
       \<or> (\<exists>m out. trace s' = trace s @ [(DbPing, Some m), (SqlOpen, out)]
              \<and> r = map_option External out)"
  using assms
  unfolding GetDB_def Ping_def OpenDataSource_def db_Ping_def retry_Do_sql_Open_def lib_call_def
  by (auto simp: Let_def split: option.splits)

lemma GetDB_returned: "GetDB sc env s = (r, s') \<Longrightarrow> returned r s s'"
proof -
  assume "GetDB sc env s = (r, s')"
  from GetDB_trace [OF this] show ?thesis
  proof
    assume "r = None \<and> trace s' = trace s @ [(DbPing, None)]"
    then show ?thesis by (auto simp: returned_def)
  next
    assume "\<exists>m out. trace s' = trace s @ [(DbPing, Some m), (SqlOpen, out)]
              \<and> r = map_option External out"
    then obtain m out where t: "trace s' = trace s @ [(DbPing, Some m), (SqlOpen, out)]"
      and r: "r = map_option External out" by blast
    have "\<forall>i m'. i < length [(DbPing, Some m), (SqlOpen, out)]
            \<and> snd ([(DbPing, Some m), (SqlOpen, out)] ! i) = Some m'
            \<and> \<not> dropped [(DbPing, Some m), (SqlOpen, out)] i
          \<longrightarrow> r = Some (External m')"
      using r by (auto simp: less_Suc_eq dropped_def)
    with t show ?thesis unfolding returned_def by blast
  qed
qed

lemma db_Exec_returned: "db_Exec env ddl s = (r, s') \<Longrightarrow> returned r s s'"
  by (auto simp: returned_def dest!: db_Exec_trace)

lemma ExecDDL_returned: "ExecDDL sc env ddl s = (r, s') \<Longrightarrow> returned r s s'"
  unfolding ExecDDL_def
  by (auto split: prod.splits option.splits
      dest!: GetDB_returned db_Exec_returned intro: returned_then)

lemma db_Query_returned:
  "db_Query env q args s = (x, s') \<Longrightarrow>
   returned (case x of Inl e \<Rightarrow> Some e | Inr rows \<Rightarrow> None) s s'"
  unfolding db_Query_def
  by (auto split: prod.splits option.splits dest!: lib_call_returned)

lemma rows_Err_returned: "rows_Err env s = (r, s') \<Longrightarrow> returned r s s'"
  unfolding rows_Err_def by (rule lib_call_returned)

lemma scan_int_returned:
  "scan_int env row s = (x, s') \<Longrightarrow>
   returned (case x of Inl e \<Rightarrow> Some e | Inr n \<Rightarrow> None) s s'"
  unfolding scan_int_def lib_call_def
  by (auto simp: returned_def Let_def split: row.splits option.splits)

lemma scan_version_returned:
  "scan_version env row s = (x, s') \<Longrightarrow>
   returned (case x of Inl e \<Rightarrow> Some e | Inr n \<Rightarrow> None) s s'"
  unfolding scan_version_def lib_call_def
  by (auto simp: returned_def Let_def split: row.splits option.splits)

lemma HasTable_func_returned:
  "HasTable_func env row acc s = ((r, acc'), s') \<Longrightarrow> returned r s s'"
  unfolding HasTable_func_def
  by (auto split: prod.splits sum.splits dest!: scan_int_returned)

lemma SchemaVersionArray_func_returned:
  "SchemaVersionArray_func env row acc s = ((r, acc'), s') \<Longrightarrow> returned r s s'"
  unfolding SchemaVersionArray_func_def
  by (auto split: prod.splits sum.splits dest!: scan_version_returned)

lemma rows_loop_returned:
  assumes cb: "\<forall>row acc s r acc' s'. fieldFunc row acc s = ((r, acc'), s')
      \<longrightarrow> returned r s s'"
  shows "rows_loop fieldFunc rows acc s = ((r, acc'), s') \<Longrightarrow> returned r s s'"
proof (induction rows arbitrary: acc s)
  case Nil
  then show ?case by simp
next
  case (Cons row rows)
  obtain e acc1 s1 where f: "fieldFunc row acc s = ((e, acc1), s1)"
    by (metis prod.exhaust)
  with cb have o: "returned e s s1" by blast
  show ?case
  proof (cases e)
    case None
    with Cons.prems f have "rows_loop fieldFunc rows acc1 s1 = ((r, acc'), s')" by simp
    from Cons.IH [OF this] o None show ?thesis by (auto intro: returned_then)
  next
    case (Some err)
    with Cons.prems f o show ?thesis by auto
  qed
qed

lemma Query_returned:
  assumes cb: "\<forall>row acc s r acc' s'. fieldFunc row acc s = ((r, acc'), s')
      \<longrightarrow> returned r s s'"
    and q: "Query sc env query fieldFunc acc args s = ((r, acc'), s')"
  shows "returned r s s'"
proof -
  obtain g s1 where g: "GetDB sc env s = (g, s1)" by (metis prod.exhaust)
  note o1 = GetDB_returned [OF g]
  show ?thesis
  proof (cases g)
    case (Some err)
    with q g o1 show ?thesis by (auto simp: Query_def)
  next
    case None
    obtain d s2 where d: "db_Query env query args s1 = (d, s2)" by (metis prod.exhaust)
    note o2 = db_Query_returned [OF d]
    show ?thesis
    proof (cases d)
      case (Inl err)
      with q g None d o1 o2 show ?thesis by (auto simp: Query_def intro: returned_then)
    next
      case (Inr rows)
      with o1 o2 None have o12: "returned None s s2" by (auto intro: returned_trans)
      obtain e acc1 s3 where l: "rows_loop fieldFunc rows acc s2 = ((e, acc1), s3)"
        by (metis prod.exhaust)
      note o3 = rows_loop_returned [OF cb l]
      show ?thesis
      proof (cases e)
        case (Some err)
        with q g None d Inr l o12 o3 show ?thesis
          by (auto simp: Query_def intro: returned_then)
      next
        case n: None
        obtain e4 s4 where re: "rows_Err env s3 = (e4, s4)" by (metis prod.exhaust)
        note o4 = rows_Err_returned [OF re]
        from o12 o3 n have "returned None s s3" by (auto intro: returned_trans)
        then have "returned e4 s s4" using o4 by (rule returned_then)
        with q g None d Inr l n re show ?thesis by (simp add: Query_def)
      qed
    qed
  qed
qed

lemma HasTable_returned:
  "HasTable sc env t s = (x, s') \<Longrightarrow>
   returned (case x of Inl e \<Rightarrow> Some e | Inr b \<Rightarrow> None) s s'"
  unfolding HasTable_def
  by (auto split: prod.splits option.splits
      dest!: Query_returned [rotated] HasTable_func_returned)

lemma SchemaVersionArray_returned:
  "SchemaVersionArray sc env s = (x, s') \<Longrightarrow>
   returned (case x of Inl e \<Rightarrow> Some e | Inr b \<Rightarrow> None) s s'"
  unfolding SchemaVersionArray_def
  by (auto split: prod.splits option.splits
      dest!: Query_returned [rotated] SchemaVersionArray_func_returned)

lemma initialSchemaVersion_returned:
  "initialSchemaVersion sc env s = (r, s') \<Longrightarrow> returned r s s'"
  unfolding initialSchemaVersion_def
  by (auto split: prod.splits sum.splits if_splits
      dest!: HasTable_returned ExecDDL_returned intro: returned_then)

lemma ioutil_ReadDir_dropped:
  "ioutil_ReadDir env p s = (x, s') \<Longrightarrow> returned None s s'"
  unfolding ioutil_ReadDir_def
  by (auto simp: dropped_def split: prod.splits option.splits dest!: lib_call_dropped)

lemma ioutil_ReadFile_returned:
  "ioutil_ReadFile env p s = (x, s') \<Longrightarrow>
   returned (case x of Inl e \<Rightarrow> Some e | Inr b \<Rightarrow> None) s s'"
  unfolding ioutil_ReadFile_def lib_call_def
  by (auto simp: returned_def Let_def split: option.splits)

lemma ExecDDL_ends:
  assumes "ExecDDL sc env ddl s = (r, s')"
  shows "\<exists>new. trace s' = trace s @ new \<and> new \<noteq> [] \<and> ends_script (last new)"
proof -
  obtain g s1 where g: "GetDB sc env s = (g, s1)" by (metis prod.exhaust)
  from GetDB_trace [OF g] show ?thesis
  proof
    assume a: "g = None \<and> trace s1 = trace s @ [(DbPing, None)]"
    with assms g have "db_Exec env ddl s1 = (r, s')" by (simp add: ExecDDL_def)
    from db_Exec_trace [OF this] a show ?thesis by auto
  next
    assume "\<exists>m out. trace s1 = trace s @ [(DbPing, Some m), (SqlOpen, out)]
              \<and> g = map_option External out"
    then obtain m out where t: "trace s1 = trace s @ [(DbPing, Some m), (SqlOpen, out)]"
      and r: "g = map_option External out" by blast
    show ?thesis
    proof (cases out)
      case None
      with assms g r have "db_Exec env ddl s1 = (r, s')" by (simp add: ExecDDL_def)
      from db_Exec_trace [OF this] t show ?thesis by auto
    next
      case (Some m')
      with assms g r have "s' = s1" by (simp add: ExecDDL_def)
      with t Some show ?thesis by auto
    qed
  qed
qed

lemma Insert_record_dropped:
  assumes i: "Insert sc env InsertSchemaVersionSQL args s = (x, s')"
    and e: "ends_script e0"
  shows "\<exists>new. trace s' = trace s @ new
           \<and> (\<forall>i m. i < length new \<and> snd (new ! i) = Some m \<longrightarrow> dropped (e0 # new) (Suc i))"
proof -
  obtain g s1 where g: "GetDB sc env s = (g, s1)" by (metis prod.exhaust)
  have "\<exists>n1. trace s1 = trace s @ n1
      \<and> (\<forall>i m. i < length n1 \<and> snd (n1 ! i) = Some m \<longrightarrow> dropped (e0 # n1) (Suc i))"
    using GetDB_trace [OF g]
  proof
    assume "g = None \<and> trace s1 = trace s @ [(DbPing, None)]"
    then have "trace s1 = trace s @ [(DbPing, None)]" by simp
    moreover have "\<forall>i m. i < length [(DbPing, None :: string option)]
        \<and> snd ([(DbPing, None)] ! i) = Some m \<longrightarrow> dropped (e0 # [(DbPing, None)]) (Suc i)"
      by simp
    ultimately show ?thesis by blast
  next
    assume "\<exists>m out. trace s1 = trace s @ [(DbPing, Some m), (SqlOpen, out)]
              \<and> g = map_option External out"
    then obtain m out where t: "trace s1 = trace s @ [(DbPing, Some m), (SqlOpen, out)]"
      by blast
    have "\<forall>i m'. i < length [(DbPing, Some m), (SqlOpen, out)]
        \<and> snd ([(DbPing, Some m), (SqlOpen, out)] ! i) = Some m'
        \<longrightarrow> dropped (e0 # [(DbPing, Some m), (SqlOpen, out)]) (Suc i)"
      using e by (auto simp: less_Suc_eq dropped_def)
    with t show ?thesis by blast
  qed
  then obtain n1 where n1: "trace s1 = trace s @ n1"
    and d1: "\<forall>i m. i < length n1 \<and> snd (n1 ! i) = Some m \<longrightarrow> dropped (e0 # n1) (Suc i)"
    by blast
  show ?thesis
  proof (cases g)
    case (Some err)
    with i g have "s' = s1" by (simp add: Insert_def)
    with n1 d1 show ?thesis by blast
  next
    case None
    obtain rest where rest: "trace s' = trace s1 @ rest"
      and pk: "\<forall>c \<in> fst ` set rest. c = DbPrepare InsertSchemaVersionSQL
                 \<or> c = StmtExec InsertSchemaVersionSQL args"
    proof -
      obtain p s2 where p: "db_Prepare env InsertSchemaVersionSQL s1 = (p, s2)"
        by (metis prod.exhaust)
      then obtain o2 where t2: "trace s2 = trace s1 @ [(DbPrepare InsertSchemaVersionSQL, o2)]"
        unfolding db_Prepare_def lib_call_def by (auto simp: Let_def)
      show ?thesis
      proof (cases p)
        case (Some err)
        with i g None p have "s' = s2" by (simp add: Insert_def)
        with t2 that show ?thesis by simp
      next
        case n: None
        obtain y s3 where y: "stmt_Exec env InsertSchemaVersionSQL args s2 = (y, s3)"
          by (metis prod.exhaust)
        then obtain o3 where
          "trace s3 = trace s2 @ [(StmtExec InsertSchemaVersionSQL args, o3)]"
          unfolding stmt_Exec_def lib_call_def
          by (auto simp: Let_def split: prod.splits option.splits list.splits if_splits)
        moreover from i g None p n y have "s' = s3"
          by (auto simp: Insert_def split: sum.splits)
        ultimately show ?thesis using t2 that by simp
      qed
    qed
    have "\<forall>i m. i < length (n1 @ rest) \<and> snd ((n1 @ rest) ! i) = Some m
              \<longrightarrow> dropped (e0 # n1 @ rest) (Suc i)"
    proof (intro allI impI)
      fix i m
      assume a: "i < length (n1 @ rest) \<and> snd ((n1 @ rest) ! i) = Some m"
      show "dropped (e0 # n1 @ rest) (Suc i)"
      proof (cases "i < length n1")
        case True
        with a d1 have "dropped (e0 # n1) (Suc i)" by (auto simp: nth_append)
        with True have "dropped ((e0 # n1) @ rest) (Suc i)"
          by (intro dropped_appendL) simp_all
        then show ?thesis by simp
      next
        case False
        with a have "(n1 @ rest) ! i \<in> set rest" by (auto simp: nth_append)
        with pk have "fst ((n1 @ rest) ! i) = DbPrepare InsertSchemaVersionSQL
            \<or> fst ((n1 @ rest) ! i) = StmtExec InsertSchemaVersionSQL args" by auto
        then show ?thesis by (auto simp: dropped_def)
      qed
    qed
    moreover from n1 rest have "trace s' = trace s @ (n1 @ rest)" by simp
    ultimately show ?thesis by blast
  qed
qed

lemma exec_insert_returned:
  assumes "ExecDDL sc env b s1 = (e, s2)"
  shows "returned e s1 (insertSchemaVersion sc env v s2)"
proof -
  let ?s3 = "insertSchemaVersion sc env v s2"
  from ExecDDL_returned [OF assms] obtain n1 where n1: "trace s2 = trace s1 @ n1"
    and r1: "\<forall>i m. i < length n1 \<and> snd (n1 ! i) = Some m \<and> \<not> dropped n1 i
              \<longrightarrow> e = Some (External m)"
    unfolding returned_def by blast
  from ExecDDL_ends [OF assms] n1 have ne: "n1 \<noteq> []" and en: "ends_script (last n1)"
    by auto
  obtain x s3 where i: "Insert sc env InsertSchemaVersionSQL
      [Script v, Checksum v, ExecutionTime v, Status v] s2 = (x, s3)"
    by (metis prod.exhaust)
  then have s3: "?s3 = s3" by (simp add: insertSchemaVersion_def)
  from Insert_record_dropped [OF i en] obtain n2 where n2: "trace s3 = trace s2 @ n2"
    and d2: "\<forall>i m. i < length n2 \<and> snd (n2 ! i) = Some m \<longrightarrow> dropped (last n1 # n2) (Suc i)"
    by blast
  have "\<forall>i m. i < length (n1 @ n2) \<and> snd ((n1 @ n2) ! i) = Some m \<and> \<not> dropped (n1 @ n2) i
              \<longrightarrow> e = Some (External m)"
  proof (intro allI impI)
    fix i m
    assume a: "i < length (n1 @ n2) \<and> snd ((n1 @ n2) ! i) = Some m \<and> \<not> dropped (n1 @ n2) i"
    show "e = Some (External m)"
    proof (cases "i < length n1")
      case True
      with a have "snd (n1 ! i) = Some m" by (simp add: nth_append)
      moreover from a True have "\<not> dropped n1 i" by (blast dest: dropped_appendL)
      ultimately show ?thesis using r1 True by blast
    next
      case False
      define j where "j = i - length n1"
      with False have ij: "i = length n1 + j" by simp
      with a have j: "j < length n2" "snd (n2 ! j) = Some m" by simp_all
      with d2 have "dropped (last n1 # n2) (Suc j)" by blast
      from dropped_after_last [OF ne this] a ij show ?thesis by simp
    qed
  qed
  moreover from n1 n2 s3 have "trace ?s3 = trace s1 @ (n1 @ n2)" by simp
  ultimately show ?thesis unfolding returned_def by blast
qed

lemma readFile_returned:
  assumes "readFile sc env f svs s = (r, s')"
  shows "returned r s s'"
proof -
  obtain x s1 where rf: "ioutil_ReadFile env (ddlPath (config sc) @ ''/'' @ f) s = (x, s1)"
    by (metis prod.exhaust)
  note o1 = ioutil_ReadFile_returned [OF rf]
  show ?thesis
  proof (cases x)
    case (Inl e)
    with assms rf o1 readFile_read_error [of env sc f s e s1 svs] show ?thesis by simp
  next
    case (Inr b)
    with o1 have o1': "returned None s s1" by simp
    from findByScript_cases [of f svs] show ?thesis
    proof
      assume nf: "findByScript f svs = (False, None)"
      obtain e s2 where ex: "ExecDDL sc env b s1 = (e, s2)" by (metis prod.exhaust)
      from assms rf Inr nf ex obtain v where "r = e" "s' = insertSchemaVersion sc env v s2"
        using readFile_new [of env sc f s b s1 svs e s2] by auto
      with o1' exec_insert_returned [OF ex, of v] show ?thesis
        by (auto intro: returned_then)
    next
      assume "\<exists>sv. findByScript f svs = (True, Some sv) \<and> sv \<in> set svs \<and> Script sv = f"
      then obtain sv where "findByScript f svs = (True, Some sv)" by auto
      with assms rf Inr o1' readFile_found [of env sc f s b s1 svs sv] show ?thesis
        by (auto split: if_splits intro: returned_None)
    qed
  qed
qed

lemma readFiles_returned:
  "readFiles sc env files svs s = (r, s') \<Longrightarrow> returned r s s'"
proof (induction files arbitrary: s)
  case Nil
  then show ?case by simp
next
  case (Cons f files)
  obtain e s1 where rf: "readFile sc env f svs s = (e, s1)" by (metis prod.exhaust)
  note o1 = readFile_returned [OF rf]
  show ?case
  proof (cases e)
    case (Some err)
    with Cons.prems rf o1 show ?thesis by auto
  next
    case None
    with Cons.prems rf have "readFiles sc env files svs s1 = (r, s')" by simp
    from Cons.IH [OF this] o1 None show ?thesis by (auto intro: returned_then)
  qed
qed

lemma executeFlayway_returned:
  assumes "executeFlayway sc env s = (r, s')"
  shows "returned r s s'"
proof -
  obtain x s1 where rd: "ioutil_ReadDir env (ddlPath (config sc)) s = (x, s1)"
    by (metis prod.exhaust)
  note o1 = ioutil_ReadDir_dropped [OF rd]
  show ?thesis
  proof (cases x)
    case (Inl e)
    with assms rd o1 show ?thesis by (simp add: executeFlayway_def)
  next
    case (Inr files)
    obtain y s2 where sv: "SchemaVersionArray sc env s1 = (y, s2)" by (metis prod.exhaust)
    note o2 = SchemaVersionArray_returned [OF sv]
    show ?thesis
    proof (cases y)
      case (Inl e)
      with assms rd Inr sv o1 o2 show ?thesis
        by (auto simp: executeFlayway_def intro: returned_then)
    next
      case r: (Inr svArray)
      with o1 o2 have o12: "returned None s s2" by (auto intro: returned_trans)
      show ?thesis
      proof (cases "hasError (elems svArray)")
        case (Some e)
        with assms rd Inr sv r o12 show ?thesis
          by (auto simp: executeFlayway_def intro: returned_None)
      next
        case None
        with assms rd Inr sv r have "readFiles sc env files (elems svArray) s2 = (r, s')"
          by (simp add: executeFlayway_def)
        from o12 readFiles_returned [OF this] show ?thesis by (rule returned_then)
      qed
    qed
  qed
qed

lemma initialFlayway_returned:
  "initialFlayway sc env s = (r, s') \<Longrightarrow> returned r s s'"
  unfolding initialFlayway_def
  by (auto split: prod.splits option.splits if_splits
      dest!: initialSchemaVersion_returned executeFlayway_returned intro: returned_then)

lemma Initial_returned:
  assumes "Initial sc env s = (r, s')"
  shows "returned r s s'"
proof -
  obtain o1 s1 where op: "OpenDataSource sc env s = (o1, s1)" by (metis prod.exhaust)
  then have c1: "returned o1 s s1"
    unfolding OpenDataSource_def retry_Do_sql_Open_def
    by (auto split: prod.splits option.splits dest!: lib_call_returned)
  show ?thesis
  proof (cases o1)
    case (Some e)
    with assms op c1 show ?thesis by (auto simp: Initial_def)
  next
    case None
    obtain p s2 where pg: "Ping sc env s1 = (p, s2)" by (metis prod.exhaust)
    then have c2: "returned p s1 s2"
      unfolding Ping_def db_Ping_def by (auto dest!: lib_call_returned)
    show ?thesis
    proof (cases p)
      case (Some e)
      with assms op None pg c1 c2 show ?thesis
        by (auto simp: Initial_def intro: returned_then)
    next
      case n: None
      with c1 c2 None have c12: "returned None s s2" by (auto intro: returned_trans)
      obtain r3 s3 where fl: "initialFlayway sc env s2 = (r3, s3)" by (metis prod.exhaust)
      from c12 initialFlayway_returned [OF fl] have "returned r3 s s3"
        by (rule returned_then)
      moreover from assms op None pg n fl have "r = r3" "s' = s3"
        by (auto simp: Initial_def split: option.splits)
      ultimately show ?thesis by simp
    qed
  qed
qed

subsection \<open>What a successful run has checked\<close>

lemma readFile_None_found:
  assumes "readFile sc env f svs s = (None, s')"
    and "findByScript f svs = (True, Some sv)"
  shows "\<exists>b checksum. fs_file env (ddlPath (config sc) @ ''/'' @ f) = Some b
           \<and> hash64 b = Inr checksum \<and> Checksum sv = FormatUint checksum"
proof -
  obtain x s1 where rf: "ioutil_ReadFile env (ddlPath (config sc) @ ''/'' @ f) s = (x, s1)"
    by (metis prod.exhaust)
  show ?thesis
  proof (cases x)
    case (Inl e)
    with rf assms(1) show ?thesis by (simp add: readFile_read_error)
  next
    case (Inr b)
    with rf have rf': "ioutil_ReadFile env (ddlPath (config sc) @ ''/'' @ f) s = (Inr b, s1)"
      by simp
    from readFile_found [OF rf' assms(2)] assms(1)
    have "Checksum sv = FormatUint (fst (fnv_Write offset64 b))"
      by (auto split: if_splits)
    with ioutil_ReadFile_Inr [OF rf'] show ?thesis by (simp add: hash64_Inr)
  qed
qed

lemma readFiles_None_found:
  "readFiles sc env files svs s = (None, s') \<Longrightarrow>
   \<forall>f \<in> set files. \<forall>sv. findByScript f svs = (True, Some sv) \<longrightarrow>
     (\<exists>b checksum. fs_file env (ddlPath (config sc) @ ''/'' @ f) = Some b
         \<and> hash64 b = Inr checksum \<and> Checksum sv = FormatUint checksum)"
proof (induction files arbitrary: s)
  case Nil
  then show ?case by simp
next
  case (Cons f files)
  obtain e s1 where rf: "readFile sc env f svs s = (e, s1)" by (metis prod.exhaust)
  with Cons.prems have e: "e = None"
    and rest: "readFiles sc env files svs s1 = (None, s')"
    by (auto split: option.splits)
  from rf e have "readFile sc env f svs s = (None, s1)" by simp
  from readFile_None_found [OF this] Cons.IH [OF rest] show ?case by auto
qed

lemma executeFlayway_None:
  assumes "executeFlayway sc env s = (None, s')"
  shows "(\<exists>m. trace s' = trace s @ [(ReadDir (ddlPath (config sc)), Some m)])
       \<or> (\<exists>files rs. fs_dir env (ddlPath (config sc)) = Some files
             \<and> schema_version s = Some rs \<and> hasError rs = None
             \<and> (\<forall>f \<in> set files. \<forall>sv. findByScript f rs = (True, Some sv) \<longrightarrow>
                  (\<exists>b checksum. fs_file env (ddlPath (config sc) @ ''/'' @ f) = Some b
                      \<and> hash64 b = Inr checksum \<and> Checksum sv = FormatUint checksum)))"
proof -
  obtain x s1 where rd: "ioutil_ReadDir env (ddlPath (config sc)) s = (x, s1)"
    by (metis prod.exhaust)
  show ?thesis
  proof (cases x)
    case (Inl e)
    with rd have rd': "ioutil_ReadDir env (ddlPath (config sc)) s = (Inl e, s1)" by simp
    from assms rd' have "s' = s1" by (simp add: executeFlayway_def)
    with ioutil_ReadDir_Inl [OF rd'] show ?thesis by auto
  next
    case (Inr files)
    with rd have rd': "ioutil_ReadDir env (ddlPath (config sc)) s = (Inr files, s1)" by simp
    from ioutil_ReadDir_Inr [OF rd'] have fd: "fs_dir env (ddlPath (config sc)) = Some files"
      and t1: "schema_version s1 = schema_version s" by simp_all
    from assms rd' obtain svArray s2 where sv: "SchemaVersionArray sc env s1 = (Inr svArray, s2)"
      and he: "hasError (elems svArray) = None"
      and lp: "readFiles sc env files (elems svArray) s2 = (None, s')"
      by (auto simp: executeFlayway_def split: prod.splits sum.splits option.splits)
    from SchemaVersionArray_result [OF sv] t1 obtain rs where
      rs: "schema_version s = Some rs" "svArray = Slice rs" by auto
    from readFiles_None_found [OF lp] he rs fd show ?thesis by auto
  qed
qed

lemma Initial_None:
  assumes "Initial sc env s = (None, s')" and "flyway (config sc)"
  shows "\<exists>new. trace s' = trace s @ new
       \<and> ((\<exists>m. (ReadDir (ddlPath (config sc)), Some m) \<in> set new)
          \<or> (\<exists>files. fs_dir env (ddlPath (config sc)) = Some files
                \<and> hasError (ledger_rows s) = None
                \<and> (\<forall>f \<in> set files. \<forall>sv. findByScript f (ledger_rows s) = (True, Some sv) \<longrightarrow>
                     (\<exists>b checksum. fs_file env (ddlPath (config sc) @ ''/'' @ f) = Some b
                         \<and> hash64 b = Inr checksum \<and> Checksum sv = FormatUint checksum))))"
proof -
  from assms(1) obtain s1 s2 where op: "OpenDataSource sc env s = (None, s1)"
    and pg: "Ping sc env s1 = (None, s2)" and fl: "initialFlayway sc env s2 = (None, s')"
    by (auto simp: Initial_def split: prod.splits option.splits)
  from op pg have d2: "same_db s s2"
    unfolding OpenDataSource_def retry_Do_sql_Open_def Ping_def db_Ping_def
    by (auto split: prod.splits option.splits dest!: lib_call_same_db intro: same_db_trans)
  from fl assms(2) obtain s3 where i: "initialSchemaVersion sc env s2 = (None, s3)"
    and e: "executeFlayway sc env s3 = (None, s')"
    by (auto simp: initialFlayway_def split: prod.splits option.splits)
  from initialSchemaVersion_effect [OF i] d2 have
    t3: "schema_version s3 = Some (ledger_rows s)"
    and tr3: "\<exists>n. trace s3 = trace s @ n"
    by (auto simp: same_db_def ledger_rows_def)
  from tr3 obtain n where n: "trace s3 = trace s @ n" by blast
  from executeFlayway_None [OF e] show ?thesis
  proof
    assume "\<exists>m. trace s' = trace s3 @ [(ReadDir (ddlPath (config sc)), Some m)]"
    then obtain m where "trace s' = trace s @ (n @ [(ReadDir (ddlPath (config sc)), Some m)])"
      using n by auto
    then show ?thesis by (intro exI conjI disjI1) auto
  next
    assume a: "\<exists>files rs. fs_dir env (ddlPath (config sc)) = Some files
             \<and> schema_version s3 = Some rs \<and> hasError rs = None
             \<and> (\<forall>f \<in> set files. \<forall>sv. findByScript f rs = (True, Some sv) \<longrightarrow>
                  (\<exists>b checksum. fs_file env (ddlPath (config sc) @ ''/'' @ f) = Some b
                      \<and> hash64 b = Inr checksum \<and> Checksum sv = FormatUint checksum))"
    from executeFlayway_returned [OF e] n obtain new where "trace s' = trace s @ new"
      by (auto simp: returned_def)
    with a t3 show ?thesis by auto
  qed
qed

subsection \<open>The public operations when no handle can be obtained\<close>

text \<open>
  Claim C9. Whenever \<^verbatim>\<open>GetDB\<close> returns an error, \<^verbatim>\<open>Insert\<close>, \<^verbatim>\<open>Update\<close> and
  \<^verbatim>\<open>Delete\<close> return \<^verbatim>\<open>(0, nil)\<close> and \<^verbatim>\<open>Transaction\<close> returns \<^verbatim>\<open>nil\<close>: the connection
  error is not returned, and nothing else is done (the state is the one \<^verbatim>\<open>GetDB\<close> left).
\<close>

theorem getdb_error_discarded:
  assumes "GetDB sc env s = (Some err, s1)"
  shows "Insert sc env sql args s = ((0, None), s1)
       \<and> Update sc env sql args s = ((0, None), s1)
       \<and> Delete sc env sql args s = ((0, None), s1)
       \<and> Transaction sc env callback s = (None, s1)"
  using assms by (simp add: Insert_def Update_def Delete_def Transaction_def)

lemma GetDB_down:
  "GetDB sc0 env_down w0 = (Some (External ''unable to open database file''),
      w0\<lparr>trace := [(DbPing, Some ''unable to open database file''),
                   (SqlOpen, Some ''unable to open database file'')]\<rparr>)"
  by (simp add: GetDB_def Ping_def OpenDataSource_def db_Ping_def retry_Do_sql_Open_def
      lib_call_def env_down_def w0_def)

theorem getdb_error_discarded_witness:
  "GetDB sc0 env_down w0 = (Some (External ''unable to open database file''),
      w0\<lparr>trace := [(DbPing, Some ''unable to open database file''),
                   (SqlOpen, Some ''unable to open database file'')]\<rparr>)
   \<and> Insert sc0 env_down ''insert into t values (?)'' [''x''] w0 = ((0, None),
      w0\<lparr>trace := [(DbPing, Some ''unable to open database file''),
                   (SqlOpen, Some ''unable to open database file'')]\<rparr>)
   \<and> Transaction sc0 env_down (\<lambda>s. (None, s)) w0 = (None,
      w0\<lparr>trace := [(DbPing, Some ''unable to open database file''),
                   (SqlOpen, Some ''unable to open database file'')]\<rparr>)"
  using getdb_error_discarded [OF GetDB_down, of "''insert into t values (?)''" "[''x'']"
      "\<lambda>s. (None, s)"] GetDB_down
  by simp

subsection \<open>Count\<close>

text \<open>
  Claim C10. When the handle is obtained and the transaction begins, but scanning the row
  of the count query fails, \<^verbatim>\<open>Count\<close> returns \<^verbatim>\<open>(0, nil)\<close>: the error of the scan
  (\<^verbatim>\<open>countErr\<close>) is not returned, the value returned is the \<^verbatim>\<open>nil\<close> left by
  \<^verbatim>\<open>db.Begin\<close>.
\<close>

theorem count_scan_error_dropped:
  assumes "GetDB sc env s = (None, s1)"
    and "db_Begin env s1 = (None, s2)"
    and "tx_QueryRow_Scan env sql args s2 = (Inl countErr, s3)"
  shows "Count sc env sql args s = ((0, None), snd (tx_Commit env s2 s3))"
  using assms by (simp add: Count_def)

theorem count_scan_error_dropped_witness:
  "GetDB sc0 env_norows w0 = (None, w0\<lparr>trace := [(DbPing, None)]\<rparr>)
   \<and> db_Begin env_norows (w0\<lparr>trace := [(DbPing, None)]\<rparr>)
       = (None, w0\<lparr>trace := [(DbPing, None), (DbBegin, None)]\<rparr>)
   \<and> tx_QueryRow_Scan env_norows ''select count(1) from t'' []
         (w0\<lparr>trace := [(DbPing, None), (DbBegin, None)]\<rparr>)
       = (Inl (External ''sql: no rows in result set''),
          w0\<lparr>trace := [(DbPing, None), (DbBegin, None),
             (TxQueryRowScan ''select count(1) from t'' [], Some ''sql: no rows in result set'')]\<rparr>)
   \<and> fst (Count sc0 env_norows ''select count(1) from t'' [] w0) = (0, None)"
proof -
  have a: "GetDB sc0 env_norows w0 = (None, w0\<lparr>trace := [(DbPing, None)]\<rparr>)"
    by (simp add: GetDB_def Ping_def db_Ping_def lib_call_def env_norows_def w0_def)
  have b: "db_Begin env_norows (w0\<lparr>trace := [(DbPing, None)]\<rparr>)
       = (None, w0\<lparr>trace := [(DbPing, None), (DbBegin, None)]\<rparr>)"
    by (simp add: db_Begin_def lib_call_def env_norows_def w0_def)
  have c: "tx_QueryRow_Scan env_norows ''select count(1) from t'' []
         (w0\<lparr>trace := [(DbPing, None), (DbBegin, None)]\<rparr>)
       = (Inl (External ''sql: no rows in result set''),
          w0\<lparr>trace := [(DbPing, None), (DbBegin, None),
             (TxQueryRowScan ''select count(1) from t'' [], Some ''sql: no rows in result set'')]\<rparr>)"
    by (simp add: tx_QueryRow_Scan_def lib_call_def env_norows_def w0_def)
  from count_scan_error_dropped [OF a b c] a b c show ?thesis by simp
qed

subsection \<open>The checksum\<close>

text \<open>
  Claim C6. \<^verbatim>\<open>hash64\<close> is a function of the content alone (it has no other argument and
  reads no state): equal contents give equal results, the result is never an error, and
  it is the 64-bit FNV-1 fold over the bytes of the content.
\<close>

theorem hash64_deterministic:
  assumes "c1 = c2"
  shows "hash64 c1 = hash64 c2
       \<and> hash64 c1 = Inr (fold (\<lambda>c h. (h * prime64) XOR of_char c) c1 offset64)"
  using assms by (simp add: hash64_def fnv_Write_fold)

theorem hash64_deterministic_witness:
  "''a'' = ''a'' \<and> hash64 ''a'' = hash64 ''a'' \<and> hash64 ''a'' = Inr 0xaf63bd4c8601b7be"
  using hash64_deterministic [of "''a''" "''a''"]
  by (simp add: offset64_def prime64_def)

subsection \<open>The migration run\<close>

text \<open>
  Claim C7. When the script directory cannot be listed, the run returns success: after the
  ledger table has been ensured, the failed listing is the only call made, and the ledger
  holds the rows it held before (none, if the table had to be created).
\<close>

theorem unlistable_directory_is_success:
  assumes "flyway (config sc)"
    and "initialSchemaVersion sc env s = (None, s1)"
    and "ioutil_ReadDir env (ddlPath (config sc)) s1 = (Inl err, s2)"
  shows "initialFlayway sc env s = (None, s2)
       \<and> executeFlayway sc env s1 = (None, s2)
       \<and> schema_version s2 = Some (case schema_version s of None \<Rightarrow> [] | Some rs \<Rightarrow> rs)
       \<and> (\<exists>m. trace s2 = trace s1 @ [(ReadDir (ddlPath (config sc)), Some m)])"
proof -
  from assms(3) have e: "executeFlayway sc env s1 = (None, s2)"
    by (simp add: executeFlayway_def)
  with assms(1,2) have "initialFlayway sc env s = (None, s2)"
    by (simp add: initialFlayway_def)
  moreover from ioutil_ReadDir_Inl [OF assms(3)] obtain m where
    "s2 = s1\<lparr>trace := trace s1 @ [(ReadDir (ddlPath (config sc)), Some m)]\<rparr>" by auto
  moreover note initialSchemaVersion_effect [OF assms(2)] e
  ultimately show ?thesis by auto
qed

theorem unlistable_directory_is_success_witness:
  "flyway (config sc_missing)
   \<and> initialSchemaVersion sc_missing env0 w0 = (None, missing_1)
   \<and> ioutil_ReadDir env0 (ddlPath (config sc_missing)) missing_1
       = (Inl (External ''no such file or directory''), missing_2)
   \<and> initialFlayway sc_missing env0 w0 = (None, missing_2)
   \<and> schema_version w0 = None
   \<and> schema_version missing_2 = Some []"
proof -
  have h1: "flyway (config sc_missing)" by code_simp
  have h2: "initialSchemaVersion sc_missing env0 w0 = (None, missing_1)"
    by (simp add: prod_eq_iff missing_1_def) code_simp
  have h3: "ioutil_ReadDir env0 (ddlPath (config sc_missing)) missing_1
       = (Inl (External ''no such file or directory''), missing_2)"
    by (simp add: prod_eq_iff missing_2_def) code_simp
  have h4: "schema_version w0 = None" by (simp add: w0_def)
  from unlistable_directory_is_success [OF h1 h2 h3] h1 h2 h3 h4 show ?thesis by simp
qed

text \<open>
  Claim C2, as amended. When the ledger holds a record with status ERROR, and the ledger
  table check, the listing of the script directory and the reading of the ledger succeed,
  the run fails with the abnormal-state error for an ERROR record of the ledger; it ends
  in the state in which the ledger was read, the ledger is unchanged, and the only calls
  made are those of the table check, the listing and the ledger query (no script is read,
  executed or recorded).
\<close>

theorem error_record_aborts_run:
  assumes "flyway (config sc)"
    and "schema_version s = Some rs"
    and "sv \<in> set rs"
    and "Status sv = SchemaVersionStatusError"
    and "initialSchemaVersion sc env s = (None, s1)"
    and "ioutil_ReadDir env (ddlPath (config sc)) s1 = (Inr files, s2)"
    and "SchemaVersionArray sc env s2 = (Inr svArray, s3)"
  shows "\<exists>sv' new. initialFlayway sc env s = (Some (AbnormalState sv'), s3)
           \<and> sv' \<in> set rs \<and> Status sv' = SchemaVersionStatusError
           \<and> schema_version s3 = Some rs \<and> seq s3 = seq s
           \<and> trace s3 = trace s @ new
           \<and> list_all (\<lambda>e. query_call (fst e) \<or> fst e = ReadDir (ddlPath (config sc))) new"
proof -
  from initialSchemaVersion_effect [OF assms(5)] assms(2)
  have t1: "schema_version s1 = Some rs" "seq s1 = seq s" by simp_all
  with ioutil_ReadDir_same_db [OF assms(6)]
  have t2: "schema_version s2 = Some rs" "seq s2 = seq s" by (simp_all add: same_db_def)
  with SchemaVersionArray_same_db [OF assms(7)]
  have t3: "schema_version s3 = Some rs" "seq s3 = seq s" by (simp_all add: same_db_def)
  from SchemaVersionArray_result [OF assms(7)] t2 have sl: "svArray = Slice rs" by simp
  from hasError_Some [OF assms(3,4)] obtain sv' where
    h: "hasError rs = Some (AbnormalState sv')" "sv' \<in> set rs"
       "Status sv' = SchemaVersionStatusError" by auto
  from assms(6,7) sl h(1) have "executeFlayway sc env s1 = (Some (AbnormalState sv'), s3)"
    by (simp add: executeFlayway_def)
  with assms(1,5) have r: "initialFlayway sc env s = (Some (AbnormalState sv'), s3)"
    by (simp add: initialFlayway_def)
  let ?P = "\<lambda>e. query_call (fst e) \<or> fst e = ReadDir (ddlPath (config sc))"
  have "only ?P s s1"
    by (rule initialSchemaVersion_only [OF _ assms(5)]) (simp_all add: assms(2))
  moreover have "only ?P s1 s2"
    by (rule ioutil_ReadDir_only [OF assms(6)]) simp
  moreover have "only ?P s2 s3"
    by (rule SchemaVersionArray_only [OF _ assms(7)]) simp
  ultimately have "only ?P s s3" by (blast intro: only_trans)
  then obtain new where "trace s3 = trace s @ new" "list_all ?P new"
    by (auto simp: only_def)
  with r h t3 show ?thesis by blast
qed

theorem error_record_aborts_run_witness:
  "flyway (config sc0)
   \<and> schema_version w_err = Some rows_err
   \<and> hd rows_err \<in> set rows_err
   \<and> Status (hd rows_err) = SchemaVersionStatusError
   \<and> initialSchemaVersion sc0 env0 w_err = (None, err_1)
   \<and> ioutil_ReadDir env0 (ddlPath (config sc0)) err_1 = (Inr [''a.sql'', ''b.sql''], err_2)
   \<and> SchemaVersionArray sc0 env0 err_2 = (Inr (Slice rows_err), err_3)
   \<and> initialFlayway sc0 env0 w_err = (Some (AbnormalState (hd rows_err)), err_3)
   \<and> schema_version err_3 = Some rows_err"
proof -
  have h1: "flyway (config sc0)" by code_simp
  have h2: "schema_version w_err = Some rows_err" by (simp add: w_err_def)
  have h3: "hd rows_err \<in> set rows_err" by (simp add: rows_err_def)
  have h4: "Status (hd rows_err) = SchemaVersionStatusError" by code_simp
  have h5: "initialSchemaVersion sc0 env0 w_err = (None, err_1)"
    by (simp add: prod_eq_iff err_1_def) code_simp
  have h6: "ioutil_ReadDir env0 (ddlPath (config sc0)) err_1 = (Inr [''a.sql'', ''b.sql''], err_2)"
    by (simp add: prod_eq_iff err_2_def) code_simp
  have h7: "SchemaVersionArray sc0 env0 err_2 = (Inr (Slice rows_err), err_3)"
    by (simp add: prod_eq_iff err_3_def) code_simp
  have u: "\<And>x. x \<in> set rows_err \<Longrightarrow> x = hd rows_err" by (simp add: rows_err_def)
  from error_record_aborts_run [OF h1 h2 h3 h4 h5 h6 h7] obtain sv' where
    r: "initialFlayway sc0 env0 w_err = (Some (AbnormalState sv'), err_3)"
       "sv' \<in> set rows_err" "schema_version err_3 = Some rows_err"
    by blast
  from r(2) have "sv' = hd rows_err" by (rule u)
  with r(1,3) h1 h2 h3 h4 h5 h6 h7 show ?thesis by simp
qed

theorem error_record_aborts_run_counterexample:
  "flyway (config sc_missing)
   \<and> schema_version w_err = Some rows_err
   \<and> Status (hd rows_err) = SchemaVersionStatusError
   \<and> fst (initialFlayway sc_missing env0 w_err) = None"
  by code_simp


lemma run_reaches_script:
  assumes "flyway (config sc)"
    and "initialSchemaVersion sc env s = (None, s1)"
    and "ioutil_ReadDir env (ddlPath (config sc)) s1 = (Inr (pre @ f # post), s2)"
    and "SchemaVersionArray sc env s2 = (Inr svArray, s3)"
    and "hasError (elems svArray) = None"
    and "readFiles sc env pre (elems svArray) s3 = (None, s4)"
    and "readFile sc env f (elems svArray) s4 = (Some err, s')"
  shows "initialFlayway sc env s = (Some err, s')"
proof -
  from assms(6,7) have "readFiles sc env (pre @ f # post) (elems svArray) s3 = (Some err, s')"
    by (simp add: readFiles_append)
  with assms(3,4,5) have "executeFlayway sc env s1 = (Some err, s')"
    by (simp add: executeFlayway_def)
  with assms(1,2) show ?thesis
    by (simp add: initialFlayway_def)
qed

text \<open>
  Claim C3. When the run reaches a script whose name is found among the records read at
  the start of the run, and the checksum of its content differs from the checksum of the
  record found, the run fails with the file-changed error for that record. It ends in the
  state in which the script was read: nothing is executed and no row is appended, for this
  script or any later one.
\<close>

theorem changed_script_stops_run:
  assumes "flyway (config sc)"
    and "initialSchemaVersion sc env s = (None, s1)"
    and "ioutil_ReadDir env (ddlPath (config sc)) s1 = (Inr (pre @ f # post), s2)"
    and "SchemaVersionArray sc env s2 = (Inr svArray, s3)"
    and "hasError (elems svArray) = None"
    and "readFiles sc env pre (elems svArray) s3 = (None, s4)"
    and "ioutil_ReadFile env (ddlPath (config sc) @ ''/'' @ f) s4 = (Inr b, s5)"
    and "findByScript f (elems svArray) = (True, Some sv)"
    and "hash64 b = Inr checksum"
    and "Checksum sv \<noteq> FormatUint checksum"
  shows "initialFlayway sc env s = (Some (FileChanged sv), s5)
       \<and> schema_version s5 = schema_version s4 \<and> seq s5 = seq s4
       \<and> trace s5 = trace s4 @ [(ReadFile (ddlPath (config sc) @ ''/'' @ f), None)]"
proof -
  from assms(9) have c: "checksum = fst (fnv_Write offset64 b)"
    by (simp add: hash64_Inr)
  with assms(7,8,10) have "readFile sc env f (elems svArray) s4 = (Some (FileChanged sv), s5)"
    by (simp add: readFile_found)
  from run_reaches_script [OF assms(1-6) this]
  have "initialFlayway sc env s = (Some (FileChanged sv), s5)" .
  moreover from ioutil_ReadFile_Inr [OF assms(7)]
  have "s5 = s4\<lparr>trace := trace s4 @ [(ReadFile (ddlPath (config sc) @ ''/'' @ f), None)]\<rparr>"
    by simp
  ultimately show ?thesis by simp
qed

theorem changed_script_stops_run_witness:
  "flyway (config sc0)
   \<and> initialSchemaVersion sc0 env0 w_changed = (None, changed_1)
   \<and> ioutil_ReadDir env0 (ddlPath (config sc0)) changed_1
       = (Inr ([''a.sql''] @ ''b.sql'' # []), changed_2)
   \<and> SchemaVersionArray sc0 env0 changed_2 = (Inr (Slice rows_changed), changed_3)
   \<and> hasError (elems (Slice rows_changed)) = None
   \<and> readFiles sc0 env0 [''a.sql''] (elems (Slice rows_changed)) changed_3 = (None, changed_4)
   \<and> ioutil_ReadFile env0 (ddlPath (config sc0) @ ''/'' @ ''b.sql'') changed_4
       = (Inr ''insert into t'', changed_5)
   \<and> findByScript ''b.sql'' (elems (Slice rows_changed)) = (True, Some (last rows_changed))
   \<and> hash64 ''insert into t'' = Inr 16349908486871420800
   \<and> Checksum (last rows_changed) \<noteq> FormatUint 16349908486871420800
   \<and> initialFlayway sc0 env0 w_changed = (Some (FileChanged (last rows_changed)), changed_5)
   \<and> schema_version changed_5 = Some rows_changed"
proof -
  have h1: "flyway (config sc0)" by code_simp
  have h2: "initialSchemaVersion sc0 env0 w_changed = (None, changed_1)"
    by (simp add: prod_eq_iff changed_1_def) code_simp
  have h3: "ioutil_ReadDir env0 (ddlPath (config sc0)) changed_1
       = (Inr ([''a.sql''] @ ''b.sql'' # []), changed_2)"
    by (simp add: prod_eq_iff changed_2_def) code_simp
  have h4: "SchemaVersionArray sc0 env0 changed_2 = (Inr (Slice rows_changed), changed_3)"
    by (simp add: prod_eq_iff changed_3_def) code_simp
  have h5: "hasError (elems (Slice rows_changed)) = None" by code_simp
  have h6: "readFiles sc0 env0 [''a.sql''] (elems (Slice rows_changed)) changed_3
       = (None, changed_4)"
    by (simp add: prod_eq_iff changed_4_def del: readFiles.simps) code_simp
  have h7: "ioutil_ReadFile env0 (ddlPath (config sc0) @ ''/'' @ ''b.sql'') changed_4
       = (Inr ''insert into t'', changed_5)"
    by (simp add: prod_eq_iff changed_5_def) code_simp
  have h8: "findByScript ''b.sql'' (elems (Slice rows_changed)) = (True, Some (last rows_changed))"
    by code_simp
  have h9: "hash64 ''insert into t'' = Inr 16349908486871420800" by code_simp
  have h10: "Checksum (last rows_changed) \<noteq> FormatUint 16349908486871420800" by code_simp
  have h11: "schema_version changed_4 = Some rows_changed" by code_simp
  from changed_script_stops_run [OF h1 h2 h3 h4 h5 h6 h7 h8 h9 h10]
    h1 h2 h3 h4 h5 h6 h7 h8 h9 h10 h11
  show ?thesis by simp
qed




subsection \<open>Listing the ledger\<close>



subsection \<open>Running the migrations again\<close>




subsection \<open>Errors returned to the caller of Initial\<close>

text \<open>
  Claim C5, as amended. Every call that fails during \<^verbatim>\<open>Initial\<close> is the error returned
  to the caller (opening the data source, the first ping, reopening the data source for a
  statement or a query, executing a statement, a query, a row scan, the row iteration,
  reading a script file), with these exceptions: the listing of the script directory (the
  documented leniency), a ping in \<^verbatim>\<open>GetDB\<close> (the data source is reopened, and the
  reopening is what counts), and the calls of the insertion of a record (reopening the data
  source for it, preparing and executing the insert), whose failure \<^verbatim>\<open>Insert\<close> or
  \<^verbatim>\<open>insertSchemaVersion\<close> drops. And the errors the runner raises itself are returned:
  a run with migrations configured returns success only if the directory could not be
  listed, or the ledger as it was held no ERROR record and every listed script found in it
  had the checksum of its record.
\<close>

theorem surfaced_failures_are_returned:
  assumes "Initial sc env s = (r, s')"
  shows "\<exists>new. trace s' = trace s @ new
           \<and> (\<forall>i m. i < length new \<and> snd (new ! i) = Some m \<and> \<not> dropped new i
                 \<longrightarrow> r = Some (External m))
           \<and> (r = None \<and> flyway (config sc) \<longrightarrow>
                (\<exists>m. (ReadDir (ddlPath (config sc)), Some m) \<in> set new)
              \<or> (\<exists>files. fs_dir env (ddlPath (config sc)) = Some files
                    \<and> hasError (ledger_rows s) = None
                    \<and> (\<forall>f \<in> set files. \<forall>sv.
                          findByScript f (ledger_rows s) = (True, Some sv) \<longrightarrow>
                          (\<exists>b checksum.
                              fs_file env (ddlPath (config sc) @ ''/'' @ f) = Some b
                              \<and> hash64 b = Inr checksum
                              \<and> Checksum sv = FormatUint checksum))))"
proof -
  from Initial_returned [OF assms] obtain new where
    n: "trace s' = trace s @ new"
    and a: "\<forall>i m. i < length new \<and> snd (new ! i) = Some m \<and> \<not> dropped new i
                 \<longrightarrow> r = Some (External m)"
    unfolding returned_def by blast
  have "(\<exists>m. (ReadDir (ddlPath (config sc)), Some m) \<in> set new)
      \<or> (\<exists>files. fs_dir env (ddlPath (config sc)) = Some files
            \<and> hasError (ledger_rows s) = None
            \<and> (\<forall>f \<in> set files. \<forall>sv.
                  findByScript f (ledger_rows s) = (True, Some sv) \<longrightarrow>
                  (\<exists>b checksum.
                      fs_file env (ddlPath (config sc) @ ''/'' @ f) = Some b
                      \<and> hash64 b = Inr checksum
                      \<and> Checksum sv = FormatUint checksum)))"
    if "r = None" and f: "flyway (config sc)"
  proof -
    from that assms have "Initial sc env s = (None, s')" by simp
    from Initial_None [OF this f] obtain new' where n': "trace s' = trace s @ new'"
      and b: "(\<exists>m. (ReadDir (ddlPath (config sc)), Some m) \<in> set new')
          \<or> (\<exists>files. fs_dir env (ddlPath (config sc)) = Some files
                \<and> hasError (ledger_rows s) = None
                \<and> (\<forall>f \<in> set files. \<forall>sv.
                      findByScript f (ledger_rows s) = (True, Some sv) \<longrightarrow>
                      (\<exists>b checksum.
                          fs_file env (ddlPath (config sc) @ ''/'' @ f) = Some b
                          \<and> hash64 b = Inr checksum
                          \<and> Checksum sv = FormatUint checksum)))"
      by blast
    from n n' have "new' = new" by simp
    with b show ?thesis by simp
  qed
  with n a show ?thesis by blast
qed

theorem surfaced_failures_are_returned_witness:
  "snd (Initial sc_one env_reopen w_led) = reopen_run
   \<and> 12 < length (trace reopen_run)
   \<and> trace reopen_run ! 12 = (SqlOpen, Some ''unable to open database file'')
   \<and> \<not> dropped (trace reopen_run) 12
   \<and> fst (Initial sc_one env_reopen w_led) = Some (External ''unable to open database file'')
   \<and> Initial sc_one env0 w_applied = (None, applied_run)
   \<and> flyway (config sc_one)
   \<and> list_all (\<lambda>e. snd e = None) (trace applied_run)
   \<and> findByScript ''a.sql'' (ledger_rows w_applied) = (True, Some (hd rows_applied))
   \<and> hash64 ''create table if not exists t (x integer)'' = Inr 1255831561887079968
   \<and> Checksum (hd rows_applied) = FormatUint 1255831561887079968"
proof -
  have h: "Initial sc_one env_reopen w_led = (fst (Initial sc_one env_reopen w_led), reopen_run)"
    by (simp add: reopen_run_def)
  have l: "12 < length (trace reopen_run)" by code_simp
  have e: "trace reopen_run ! 12 = (SqlOpen, Some ''unable to open database file'')"
    by code_simp
  have d: "\<not> dropped (trace reopen_run) 12" by code_simp
  from surfaced_failures_are_returned [OF h] obtain new where
    n: "trace reopen_run = trace w_led @ new"
    and a: "\<forall>i m. i < length new \<and> snd (new ! i) = Some m \<and> \<not> dropped new i
          \<longrightarrow> fst (Initial sc_one env_reopen w_led) = Some (External m)"
    by blast
  from n have nn: "new = trace reopen_run" by (simp add: w_led_def)
  from e have "snd (trace reopen_run ! 12) = Some ''unable to open database file''"
    by simp
  with a nn l d have r: "fst (Initial sc_one env_reopen w_led)
      = Some (External ''unable to open database file'')" by blast
  have h2: "Initial sc_one env0 w_applied = (None, applied_run)"
    by (simp add: prod_eq_iff applied_run_def) code_simp
  have f: "flyway (config sc_one)" by code_simp
  have p: "ddlPath (config sc_one) = ''one''" by code_simp
  have ok: "list_all (\<lambda>e. snd e = None) (trace applied_run)" by code_simp
  have fb: "findByScript ''a.sql'' (ledger_rows w_applied) = (True, Some (hd rows_applied))"
    by code_simp
  have hs: "hash64 ''create table if not exists t (x integer)'' = Inr 1255831561887079968" by code_simp
  from surfaced_failures_are_returned [OF h2] f obtain new2 where
    n2: "trace applied_run = trace w_applied @ new2"
    and b: "(\<exists>m. (ReadDir (ddlPath (config sc_one)), Some m) \<in> set new2)
        \<or> (\<exists>files. fs_dir env0 (ddlPath (config sc_one)) = Some files
              \<and> (\<forall>f \<in> set files. \<forall>sv.
                    findByScript f (ledger_rows w_applied) = (True, Some sv) \<longrightarrow>
                    (\<exists>b checksum.
                        fs_file env0 (ddlPath (config sc_one) @ ''/'' @ f) = Some b
                        \<and> hash64 b = Inr checksum
                        \<and> Checksum sv = FormatUint checksum)))"
    by blast
  from n2 have "new2 = trace applied_run" by (simp add: w_applied_def)
  with ok have "\<not> (\<exists>m. (ReadDir (ddlPath (config sc_one)), Some m) \<in> set new2)"
    by (auto simp: list_all_iff)
  with b obtain files where fd: "fs_dir env0 (ddlPath (config sc_one)) = Some files"
    and c: "\<forall>f \<in> set files. \<forall>sv.
                    findByScript f (ledger_rows w_applied) = (True, Some sv) \<longrightarrow>
                    (\<exists>b checksum.
                        fs_file env0 (ddlPath (config sc_one) @ ''/'' @ f) = Some b
                        \<and> hash64 b = Inr checksum
                        \<and> Checksum sv = FormatUint checksum)"
    by blast
  from fd p have "files = [''a.sql'']" by (simp add: env0_def)
  with c fb obtain b checksum where
    "fs_file env0 (ddlPath (config sc_one) @ ''/'' @ ''a.sql'') = Some b"
    "hash64 b = Inr checksum" "Checksum (hd rows_applied) = FormatUint checksum"
    by auto
  with p hs have "Checksum (hd rows_applied) = FormatUint 1255831561887079968"
    by (auto simp: env0_def)
  with l e d r h2 f ok fb hs show ?thesis by (simp add: reopen_run_def)
qed

text \<open>
  The claim as it was stated fails for the insertion of a record: when the preparation of
  the insert fails, \<^verbatim>\<open>Initial\<close> returns \<^verbatim>\<open>nil\<close> and the ledger has no row for the script
  that was executed.
\<close>

theorem surfaced_failures_are_returned_counterexample:
  "fst (Initial sc_one env_insfail w_led) = None
   \<and> (DbPrepare InsertSchemaVersionSQL, Some ''database is locked'')
        \<in> set (trace (snd (Initial sc_one env_insfail w_led)))
   \<and> schema_version (snd (Initial sc_one env_insfail w_led)) = Some []"
  by code_simp

end
